theory Spec2Isabelle
  imports Complex_Main "HOL-Library.Word"
begin

section \<open>pltslamshow.py: the SlamShow display class\<close>

text \<open>
  A shallow embedding of \<^verbatim>\<open>src/examples/pltslamshow.py\<close>. The file is Python 2 (tuple
  parameters, the legacy \<^verbatim>\<open>cv\<close> binding).

  Numbers. Python ints are \<open>int\<close>. A Python float is an IEEE 754 double: a
  \<open>pyfloat\<close> is a finite double (carried as the real number it denotes), an infinity
  or NaN, and every float operation rounds its exact result to the nearest double,
  ties to even, overflowing to infinity (\<open>fl\<close>). The two zeros are one: nothing here
  tells them apart. Python 2's \<^verbatim>\<open>/\<close> floors on two ints and divides floats
  otherwise; \<^verbatim>\<open>int(f)\<close> truncates toward zero and raises on an infinity or NaN.
  \<^verbatim>\<open>math.cos\<close> and \<^verbatim>\<open>math.sin\<close> are the C library's: the model takes them as a
  parameter (\<open>libm\<close>). The pose arrow, which goes to the plot surface and to no
  integer, is kept in real numbers.

  External collaborators. The OpenCV image and window and the pyplot figure are not
  part of the program; the model records the calls made on them, in order, in the
  field \<open>calls\<close> of the object, and takes what they return (the identity of the
  current figure, whether \<^verbatim>\<open>plt.pause\<close> raises, the key polled) as an argument.
  Calls that only configure a surface (the image header, the font, the window title,
  the axis labels, aspect and grid) are not recorded.
\<close>

subsection \<open>Constants\<close>

type_synonym byte = "8 word"
type_synonym color = "nat \<times> nat \<times> nat"
type_synonym pixel = "int \<times> int"

definition ROBOT_HEIGHT :: int where "ROBOT_HEIGHT = 16"
definition ROBOT_WIDTH :: int where "ROBOT_WIDTH = 10"
definition ROBOT_HEIGHT_MM :: int where "ROBOT_HEIGHT_MM = 500"
definition ROBOT_WIDTH_MM :: int where "ROBOT_WIDTH_MM = 300"

definition SENSOR_V_MAX_MM :: int where "SENSOR_V_MAX_MM = 1000"
definition SENSOR_THETA_MAX_DEG :: int where "SENSOR_THETA_MAX_DEG = 20"
definition SENSOR_BAR_X :: int where "SENSOR_BAR_X = 150"
definition SENSOR_BAR_Y_OFFSET :: int where "SENSOR_BAR_Y_OFFSET = 3"
definition SENSOR_BAR_WIDTH :: int where "SENSOR_BAR_WIDTH = 20"
definition SENSOR_BAR_MAX_HEIGHT :: int where "SENSOR_BAR_MAX_HEIGHT = 200"
definition SENSOR_TEXT_X :: int where "SENSOR_TEXT_X = 20"
definition SENSOR_V_Y :: int where "SENSOR_V_Y = 30"
definition SENSOR_THETA_Y :: int where "SENSOR_THETA_Y = 80"
definition SENSOR_LABEL_COLOR_BGR :: color where "SENSOR_LABEL_COLOR_BGR = (255, 0, 0)"
definition SENSOR_POSITIVE_COLOR_BGR :: color where "SENSOR_POSITIVE_COLOR_BGR = (0, 255, 0)"
definition SENSOR_NEGATIVE_COLOR_BGR :: color where "SENSOR_NEGATIVE_COLOR_BGR = (0, 0, 255)"


subsection \<open>Errors, external calls, the object\<close>

datatype error = ValueError | ZeroDivisionError | OverflowError | KeyboardInterrupt | OtherError string

text \<open>The arrow that \<^verbatim>\<open>ax.arrow(x, y, dx, dy, head_width, head_length, ...)\<close> returns.\<close>

record arrow =
  arrow_x :: real
  arrow_y :: real
  arrow_dx :: real
  arrow_dy :: real
  head_width :: int
  head_length :: int

datatype call =
    CvNamedWindow string
  | CvSetData int
  | CvShowImage string
  | CvWaitKey
  | CvLine pixel pixel color
  | CvPutText string pixel color
  | CvRectangle pixel pixel color
  | PltFigure
  | AxSetXlim real real
  | AxSetYlim real real
  | AxArrow arrow
  | ArrowRemove
  | PltGcf
  | PltDraw
  | PltPause

text \<open>
  The fields of \<^verbatim>\<open>self\<close>. \<^verbatim>\<open>self.image\<close> is a header over the buffer
  \<^verbatim>\<open>self.bgrbytes\<close> (\<^verbatim>\<open>cv.SetData\<close> shares it), \<^verbatim>\<open>self.font\<close> and \<^verbatim>\<open>self.ax\<close> are
  handles of the external surfaces: they carry no data of their own here.
\<close>

record SlamShow =
  map_size_pixels :: int
  map_scale_mm_per_pixel :: real
  window_name :: string
  bgrbytes :: "byte list"
  figid :: nat
  vehicle :: arrow
  calls :: "call list"

definition emit :: "call list \<Rightarrow> SlamShow \<Rightarrow> SlamShow" where
  "emit cs self = self\<lparr>calls := calls self @ cs\<rparr>"

subsection \<open>Python numbers\<close>

text \<open>
  Doubles. \<open>pow2 e\<close> is \<open>2\<^sup>e\<close>. A double near \<open>x\<close> is a multiple of
  \<open>pow2 (ulp_exponent x)\<close>: 53 significant bits, and no exponent below that of the
  subnormal numbers. \<open>fl x\<close> is the multiple nearest to \<open>x\<close>, the even one on a tie,
  and an infinity when that is \<open>2\<^sup>1\<^sup>0\<^sup>2\<^sup>4\<close> or more.
\<close>

datatype pyfloat = Fin real | Inf bool | NaN

definition pow2 :: "int \<Rightarrow> real" where
  "pow2 e = (if 0 \<le> e then 2 ^ nat e else 1 / 2 ^ nat (- e))"

definition round_half_even :: "real \<Rightarrow> int" where
  "round_half_even z =
     (let n = \<lfloor>z\<rfloor>; d = z - of_int n
      in if d < 1 / 2 then n else if 1 / 2 < d then n + 1 else if even n then n else n + 1)"

definition ulp_exponent :: "real \<Rightarrow> int" where
  "ulp_exponent x = max (\<lfloor>log 2 \<bar>x\<bar>\<rfloor> - 52) (- 1074)"

definition fl :: "real \<Rightarrow> pyfloat" where
  "fl x =
     (if x = 0 then Fin 0
      else
        let e = ulp_exponent x;
            y = of_int (round_half_even (x / pow2 e)) * pow2 e
        in if 2 ^ 1024 \<le> \<bar>y\<bar> then Inf (0 < x) else Fin y)"

text \<open>The operations of C on doubles; \<open>Inf True\<close> is the positive infinity.\<close>

fun f_neg :: "pyfloat \<Rightarrow> pyfloat" where
  "f_neg (Fin y) = Fin (- y)"
| "f_neg (Inf b) = Inf (\<not> b)"
| "f_neg NaN = NaN"

fun f_add :: "pyfloat \<Rightarrow> pyfloat \<Rightarrow> pyfloat" where
  "f_add (Fin a) (Fin b) = fl (a + b)"
| "f_add (Fin a) (Inf c) = Inf c"
| "f_add (Inf b) (Fin a) = Inf b"
| "f_add (Inf b) (Inf c) = (if b = c then Inf b else NaN)"
| "f_add NaN y = NaN"
| "f_add x NaN = NaN"

definition f_sub :: "pyfloat \<Rightarrow> pyfloat \<Rightarrow> pyfloat" where
  "f_sub x y = f_add x (f_neg y)"

fun f_mul :: "pyfloat \<Rightarrow> pyfloat \<Rightarrow> pyfloat" where
  "f_mul (Fin a) (Fin b) = fl (a * b)"
| "f_mul (Fin a) (Inf c) = (if a = 0 then NaN else Inf (c = (0 < a)))"
| "f_mul (Inf b) (Fin a) = (if a = 0 then NaN else Inf (b = (0 < a)))"
| "f_mul (Inf b) (Inf c) = Inf (b = c)"
| "f_mul NaN y = NaN"
| "f_mul x NaN = NaN"

text \<open>Division by a divisor that is not zero: Python tests for zero before it divides.\<close>

fun f_div :: "pyfloat \<Rightarrow> pyfloat \<Rightarrow> pyfloat" where
  "f_div (Fin a) (Fin b) = fl (a / b)"
| "f_div (Fin a) (Inf c) = Fin 0"
| "f_div (Inf b) (Fin a) = Inf (b = (0 < a))"
| "f_div (Inf b) (Inf c) = NaN"
| "f_div NaN y = NaN"
| "f_div x NaN = NaN"

text \<open>
  A Python number is an int or a float. An int operand of a float operation is
  converted first, rounding as \<open>fl\<close> does, and an int beyond the doubles raises
  OverflowError.
\<close>

datatype pynum = PyInt int | PyFloat pyfloat

definition error_bind :: "error + 'a \<Rightarrow> ('a \<Rightarrow> error + 'b) \<Rightarrow> error + 'b" where
  "error_bind r f = (case r of Inl e \<Rightarrow> Inl e | Inr v \<Rightarrow> f v)"

definition float_of_real :: "real \<Rightarrow> error + pyfloat" where
  "float_of_real r = (case fl r of Inf b \<Rightarrow> Inl OverflowError | f \<Rightarrow> Inr f)"

definition to_float :: "pynum \<Rightarrow> error + pyfloat" where
  "to_float x = (case x of PyFloat f \<Rightarrow> Inr f | PyInt n \<Rightarrow> float_of_real (of_int n))"

text \<open>\<^verbatim>\<open>a / b\<close> of Python 2.\<close>

definition py_div :: "pynum \<Rightarrow> pynum \<Rightarrow> error + pynum" where
  "py_div a b =
     (case (a, b) of
        (PyInt m, PyInt n) \<Rightarrow> if n = 0 then Inl ZeroDivisionError else Inr (PyInt (m div n))
      | _ \<Rightarrow>
         error_bind (to_float a) (\<lambda>x.
         error_bind (to_float b) (\<lambda>y.
           if y = Fin 0 then Inl ZeroDivisionError else Inr (PyFloat (f_div x y)))))"

text \<open>\<^verbatim>\<open>a * b\<close>, \<^verbatim>\<open>a + b\<close> and \<^verbatim>\<open>a - b\<close>.\<close>

definition py_mul :: "pynum \<Rightarrow> pynum \<Rightarrow> error + pynum" where
  "py_mul a b =
     (case (a, b) of
        (PyInt m, PyInt n) \<Rightarrow> Inr (PyInt (m * n))
      | _ \<Rightarrow>
         error_bind (to_float a) (\<lambda>x.
         error_bind (to_float b) (\<lambda>y. Inr (PyFloat (f_mul x y)))))"

definition py_add :: "pynum \<Rightarrow> pynum \<Rightarrow> error + pynum" where
  "py_add a b =
     (case (a, b) of
        (PyInt m, PyInt n) \<Rightarrow> Inr (PyInt (m + n))
      | _ \<Rightarrow>
         error_bind (to_float a) (\<lambda>x.
         error_bind (to_float b) (\<lambda>y. Inr (PyFloat (f_add x y)))))"

definition py_sub :: "pynum \<Rightarrow> pynum \<Rightarrow> error + pynum" where
  "py_sub a b =
     (case (a, b) of
        (PyInt m, PyInt n) \<Rightarrow> Inr (PyInt (m - n))
      | _ \<Rightarrow>
         error_bind (to_float a) (\<lambda>x.
         error_bind (to_float b) (\<lambda>y. Inr (PyFloat (f_sub x y)))))"

text \<open>\<^verbatim>\<open>int(x)\<close>: truncation toward zero.\<close>

definition toward_zero :: "real \<Rightarrow> int" where
  "toward_zero r = (if r < 0 then \<lceil>r\<rceil> else \<lfloor>r\<rfloor>)"

definition py_int :: "pynum \<Rightarrow> error + int" where
  "py_int x =
     (case x of
        PyInt n \<Rightarrow> Inr n
      | PyFloat (Fin r) \<Rightarrow> Inr (toward_zero r)
      | PyFloat (Inf b) \<Rightarrow> Inl OverflowError
      | PyFloat NaN \<Rightarrow> Inl ValueError)"

text \<open>\<^verbatim>\<open>x < 0\<close>.\<close>

definition py_negative :: "pynum \<Rightarrow> bool" where
  "py_negative x =
     (case x of
        PyInt n \<Rightarrow> n < 0
      | PyFloat (Fin r) \<Rightarrow> r < 0
      | PyFloat (Inf b) \<Rightarrow> \<not> b
      | PyFloat NaN \<Rightarrow> False)"

text \<open>
  The math module. \<^verbatim>\<open>math.radians(x)\<close> is \<^verbatim>\<open>x * degToRad\<close> with the constant
  \<^verbatim>\<open>degToRad = Py_MATH_PI / 180.0\<close>, \<^verbatim>\<open>Py_MATH_PI\<close> the double nearest to \<open>\<pi>\<close>.
  \<^verbatim>\<open>math.cos\<close> and \<^verbatim>\<open>math.sin\<close> raise ValueError on an infinity, return NaN on NaN
  and on a finite double return what the C library returns, which the model takes
  from \<open>libm\<close>.
\<close>

definition Py_MATH_PI :: real where
  "Py_MATH_PI = 884279719003555 / 2 ^ 48"

definition degToRad :: pyfloat where
  "degToRad = fl (Py_MATH_PI / 180)"

definition math_radians :: "pynum \<Rightarrow> error + pyfloat" where
  "math_radians x = error_bind (to_float x) (\<lambda>d. Inr (f_mul d degToRad))"

record libm =
  m_cos :: "real \<Rightarrow> pyfloat"
  m_sin :: "real \<Rightarrow> pyfloat"

definition math_cos :: "libm \<Rightarrow> pyfloat \<Rightarrow> error + pyfloat" where
  "math_cos lib x =
     (case x of Fin r \<Rightarrow> Inr (m_cos lib r) | Inf b \<Rightarrow> Inl ValueError | NaN \<Rightarrow> Inr NaN)"

definition math_sin :: "libm \<Rightarrow> pyfloat \<Rightarrow> error + pyfloat" where
  "math_sin lib x =
     (case x of Fin r \<Rightarrow> Inr (m_sin lib r) | Inf b \<Rightarrow> Inl ValueError | NaN \<Rightarrow> Inr NaN)"

text \<open>
  A C library that rounds correctly, except that at the doubles \<^verbatim>\<open>radians(30)\<close>,
  \<^verbatim>\<open>radians(90)\<close> and \<^verbatim>\<open>radians(180)\<close> its values are written out: they are the
  doubles that IEEE platforms return there (for instance \<^verbatim>\<open>cos(radians(90))\<close> is
  \<^verbatim>\<open>0x1.1a62633145c07p-54\<close>, about 6.1e-17, and \<^verbatim>\<open>sin(radians(30))\<close> is
  \<^verbatim>\<open>0x1.fffffffffffffp-2\<close>, the double below 0.5).
\<close>

definition measured_libm :: libm where
  "measured_libm =
     \<lparr>m_cos = (\<lambda>r. if r = 4716158501352293 / 2 ^ 53 then Fin (7800463371553963 / 2 ^ 53)
                    else if r = 884279719003555 / 2 ^ 49 then Fin (4967757600021511 / 2 ^ 106)
                    else if r = 884279719003555 / 2 ^ 48 then Fin (- 1)
                    else fl (cos r)),
      m_sin = (\<lambda>r. if r = 4716158501352293 / 2 ^ 53 then Fin (9007199254740991 / 2 ^ 54)
                    else if r = 884279719003555 / 2 ^ 49 then Fin 1
                    else if r = 884279719003555 / 2 ^ 48 then Fin (4967757600021511 / 2 ^ 105)
                    else fl (sin r))\<rparr>"

subsection \<open>Helpers\<close>

definition radians :: "real \<Rightarrow> real" where
  "radians deg = deg * pi / 180"

text \<open>\<^verbatim>\<open>_rotate(x, y, r, theta_deg)\<close>, lines 57-61, for the pose arrow.\<close>

definition rotate_offset :: "real \<Rightarrow> real \<Rightarrow> real \<Rightarrow> real \<Rightarrow> real \<times> real" where
  "rotate_offset x y r theta_deg =
     (let theta = radians theta_deg;
          dx = r * cos theta;
          dy = r * sin theta
      in (x + dx, y + dy))"

text \<open>
  \<^verbatim>\<open>rotate(pt, deg)\<close>, lines 262-267. The first coordinate is computed and converted
  before the second.
\<close>

definition rotate :: "libm \<Rightarrow> pynum \<times> pynum \<Rightarrow> pynum \<Rightarrow> error + pixel" where
  "rotate lib pt deg =
     error_bind (math_radians deg) (\<lambda>rad.
     error_bind (math_cos lib rad) (\<lambda>c.
     error_bind (math_sin lib rad) (\<lambda>s.
       let (x, y) = pt
       in error_bind (py_mul x (PyFloat c)) (\<lambda>xc.
          error_bind (py_mul y (PyFloat s)) (\<lambda>ys.
          error_bind (py_sub xc ys) (\<lambda>d1.
          error_bind (py_int d1) (\<lambda>p1.
          error_bind (py_mul x (PyFloat s)) (\<lambda>xs.
          error_bind (py_mul y (PyFloat c)) (\<lambda>yc.
          error_bind (py_add xs yc) (\<lambda>d2.
          error_bind (py_int d2) (\<lambda>p2. Inr (p1, p2))))))))))))"

subsection \<open>Construction\<close>

text \<open>\<^verbatim>\<open>_add_vehicle(self, x_mm, y_mm, theta_deg)\<close>, lines 183-188.\<close>

definition add_vehicle :: "SlamShow \<Rightarrow> real \<Rightarrow> real \<Rightarrow> real \<Rightarrow> SlamShow" where
  "add_vehicle self x_mm y_mm theta_deg =
     (let (dx, dy) = rotate_offset 0 0 (1 / 10) theta_deg;
          a = \<lparr>arrow_x = x_mm, arrow_y = y_mm, arrow_dx = dx, arrow_dy = dy,
               head_width = ROBOT_WIDTH_MM, head_length = ROBOT_HEIGHT_MM\<rparr>
      in emit [AxArrow a] (self\<lparr>vehicle := a\<rparr>))"

text \<open>
  \<^verbatim>\<open>__init__(self, map_size_pixels, map_scale_mm_per_pixel, window_name)\<close>,
  lines 65-111. \<open>fig\<close> is the identity \<^verbatim>\<open>id(fig)\<close> of the figure that
  \<^verbatim>\<open>plt.figure\<close> returns. The vehicle field is unset until \<^verbatim>\<open>_add_vehicle\<close> runs;
  the record needs a value there, which \<open>add_vehicle\<close> overwrites.
\<close>

definition SlamShow_init :: "int \<Rightarrow> real \<Rightarrow> string \<Rightarrow> nat \<Rightarrow> SlamShow" where
  "SlamShow_init size_pixels scale_mm_per_pixel name fig =
     (let self = \<lparr>map_size_pixels = size_pixels,
                  map_scale_mm_per_pixel = scale_mm_per_pixel,
                  window_name = name,
                  bgrbytes = replicate (nat (size_pixels * size_pixels * 3)) 0,
                  figid = fig,
                  vehicle = \<lparr>arrow_x = 0, arrow_y = 0, arrow_dx = 0, arrow_dy = 0,
                             head_width = 0, head_length = 0\<rparr>,
                  calls = []\<rparr>;
          self = emit [CvNamedWindow name, CvSetData (size_pixels * 3),
                       CvShowImage name, PltFigure] self;
          map_size_mm = scale_mm_per_pixel * of_int size_pixels;
          self = emit [AxSetXlim 0 map_size_mm, AxSetYlim 0 map_size_mm] self
      in add_vehicle self 16000 16000 0)"

text \<open>\<^verbatim>\<open>setPose(self, x_mm, y_mm, theta_deg)\<close>, lines 169-181.\<close>

definition setPose :: "SlamShow \<Rightarrow> real \<Rightarrow> real \<Rightarrow> real \<Rightarrow> SlamShow" where
  "setPose self x_mm y_mm theta_deg = add_vehicle (emit [ArrowRemove] self) x_mm y_mm theta_deg"

subsection \<open>The map\<close>

text \<open>
  \<^verbatim>\<open>b[start::step] = values\<close> on a bytearray with \<open>step > 1\<close>, as CPython's
  \<^verbatim>\<open>bytearray_ass_subscript\<close> does it: the slice has \<open>slicelength\<close> places
  \<open>start, start + step, ...\<close>; an empty right-hand side deletes these places, a
  right-hand side of another length raises ValueError, and otherwise the values are
  stored one by one.
\<close>

definition slicelength :: "nat \<Rightarrow> nat \<Rightarrow> nat \<Rightarrow> nat" where
  "slicelength start step len = (if start < len then (len - start - 1) div step + 1 else 0)"

fun store_slice :: "nat \<Rightarrow> nat \<Rightarrow> byte list \<Rightarrow> byte list \<Rightarrow> byte list" where
  "store_slice cur step [] b = b"
| "store_slice cur step (v # vs) b = store_slice (cur + step) step vs (b[cur := v])"

definition delete_slice :: "nat \<Rightarrow> nat \<Rightarrow> byte list \<Rightarrow> byte list" where
  "delete_slice start step b =
     map snd (filter (\<lambda>(i, v). \<not> (start \<le> i \<and> (i - start) mod step = 0)) (enumerate 0 b))"

definition ass_slice :: "byte list \<Rightarrow> nat \<Rightarrow> nat \<Rightarrow> byte list \<Rightarrow> error + byte list" where
  "ass_slice b start step values =
     (let slicelen = slicelength start step (length b);
          needed = length values
      in if needed = 0 then Inr (delete_slice start step b)
         else if needed \<noteq> slicelen then Inl ValueError
         else Inr (store_slice start step values b))"

text \<open>
  \<^verbatim>\<open>displayMap(self, mapbytes)\<close>, lines 113-123. An exception leaves \<^verbatim>\<open>self\<close> as the
  statements before it made it.
\<close>

definition displayMap :: "SlamShow \<Rightarrow> byte list \<Rightarrow> (error + unit) \<times> SlamShow" where
  "displayMap self mapbytes =
     (case ass_slice (bgrbytes self) 0 3 mapbytes of
        Inl e \<Rightarrow> (Inl e, self)
      | Inr b0 \<Rightarrow>
         (case ass_slice b0 1 3 mapbytes of
            Inl e \<Rightarrow> (Inl e, self\<lparr>bgrbytes := b0\<rparr>)
          | Inr b1 \<Rightarrow>
             (case ass_slice b1 2 3 mapbytes of
                Inl e \<Rightarrow> (Inl e, self\<lparr>bgrbytes := b1\<rparr>)
              | Inr b2 \<Rightarrow>
                 (Inr (), emit [CvSetData (map_size_pixels self * 3)] (self\<lparr>bgrbytes := b2\<rparr>)))))"

subsection \<open>Overlays\<close>

text \<open>
  \<^verbatim>\<open>mm2pix(self, mm)\<close>, lines 252-253. The scale field holds the int or the float the
  caller gave, as the real number it is; \<^verbatim>\<open>float\<close> of it is the nearest double, the
  number itself when it is a float already.
\<close>

definition mm2pix :: "SlamShow \<Rightarrow> pynum \<Rightarrow> error + int" where
  "mm2pix self mm =
     error_bind (float_of_real (map_scale_mm_per_pixel self)) (\<lambda>s.
     error_bind (py_div mm (PyFloat s)) py_int)"

text \<open>\<^verbatim>\<open>robot_polyline(self, scale)\<close>, lines 242-248. The constants are ints and are
  divided first; 16 and 10 are even, so the quotient is the same number whether
  \<^verbatim>\<open>/\<close> floors or not.\<close>

definition robot_polyline :: "real \<Rightarrow> (real \<times> real) list" where
  "robot_polyline scale =
     (let xlft = of_int ((- ROBOT_HEIGHT) div 2) * scale;
          xrgt = of_int (ROBOT_HEIGHT div 2) * scale;
          ybot = of_int (ROBOT_WIDTH div 2) * scale;
          ytop = of_int ((- ROBOT_HEIGHT) div 2) * scale
      in [(xlft, ybot), (xrgt, 0), (xlft, ytop)])"

text \<open>The pixel of a point in millimetres: \<^verbatim>\<open>(self.mm2pix(x), self.mm2pix(y))\<close>.\<close>

definition pix_point :: "SlamShow \<Rightarrow> pynum \<times> pynum \<Rightarrow> error + pixel" where
  "pix_point self p =
     (case mm2pix self (fst p) of
        Inl e \<Rightarrow> Inl e
      | Inr px \<Rightarrow> (case mm2pix self (snd p) of Inl e \<Rightarrow> Inl e | Inr py \<Rightarrow> Inr (px, py)))"



text \<open>
  \<^verbatim>\<open>int(value / valspan * SENSOR_BAR_MAX_HEIGHT)\<close>, the expression of line 233.
\<close>

definition bar_length :: "pynum \<Rightarrow> pynum \<Rightarrow> error + int" where
  "bar_length val valspan =
     error_bind (py_div val valspan) (\<lambda>q.
     error_bind (py_mul q (PyInt SENSOR_BAR_MAX_HEIGHT)) py_int)"

text \<open>
  \<^verbatim>\<open>show_velocity(self, value, valspan, label, y)\<close>, lines 229-236. The label is drawn
  before the length of the bar can raise.
\<close>

definition show_velocity :: "SlamShow \<Rightarrow> pynum \<Rightarrow> pynum \<Rightarrow> string \<Rightarrow> int \<Rightarrow> (error + unit) \<times> SlamShow" where
  "show_velocity self val valspan label y =
     (let self = emit [CvPutText (label @ '':'') (SENSOR_TEXT_X, y) SENSOR_LABEL_COLOR_BGR] self;
          bar_x1 = SENSOR_BAR_X + SENSOR_BAR_MAX_HEIGHT;
          bar_y1 = y + SENSOR_BAR_Y_OFFSET
      in case bar_length val valspan of
           Inl e \<Rightarrow> (Inl e, self)
         | Inr n \<Rightarrow>
            let bar_x2 = bar_x1 + n;
                bar_y2 = y - SENSOR_BAR_WIDTH + SENSOR_BAR_Y_OFFSET;
                bar_color = (if py_negative val then SENSOR_NEGATIVE_COLOR_BGR
                             else SENSOR_POSITIVE_COLOR_BGR)
            in (Inr (), emit [CvRectangle (bar_x1, bar_y1) (bar_x2, bar_y2) bar_color] self))"

text \<open>\<^verbatim>\<open>displayVelocities(self, dxy_mm, dtheta_deg)\<close>, lines 150-154.\<close>

definition displayVelocities :: "SlamShow \<Rightarrow> pynum \<Rightarrow> pynum \<Rightarrow> (error + unit) \<times> SlamShow" where
  "displayVelocities self dxy_mm dtheta_deg =
     (case show_velocity self dxy_mm (PyInt SENSOR_V_MAX_MM) ''   dXY'' SENSOR_V_Y of
        (Inl e, self) \<Rightarrow> (Inl e, self)
      | (Inr _, self) \<Rightarrow>
         show_velocity self dtheta_deg (PyInt SENSOR_THETA_MAX_DEG) ''dTheta'' SENSOR_THETA_Y)"

subsection \<open>The display loop\<close>

text \<open>
  What the surroundings answer during one call of \<^verbatim>\<open>refresh\<close>: the identity of the
  figure \<^verbatim>\<open>plt.gcf()\<close> returns, whether \<^verbatim>\<open>plt.pause\<close> raises, and the key that
  \<^verbatim>\<open>cv.WaitKey(1)\<close> returns (-1 for none).
\<close>

record answers =
  gcf_id :: nat
  pause_result :: "error + unit"
  key :: int

text \<open>\<^verbatim>\<open>cvdisplay()\<close>, lines 258-259.\<close>

definition cvdisplay :: "answers \<Rightarrow> SlamShow \<Rightarrow> int \<times> SlamShow" where
  "cvdisplay env self = (key env, emit [CvWaitKey] self)"

text \<open>\<^verbatim>\<open>refresh(self)\<close>, lines 191-211. The bare \<^verbatim>\<open>except\<close> catches every exception.\<close>

definition refresh :: "SlamShow \<Rightarrow> answers \<Rightarrow> (error + bool) \<times> SlamShow" where
  "refresh self env =
     (let self = emit [PltGcf] self
      in if figid self \<noteq> gcf_id env then (Inr False, self)
         else
           let self = emit [PltDraw] self;
               self = emit [PltPause] self
           in case pause_result env of
                Inl e \<Rightarrow> (Inr False, self)
              | Inr _ \<Rightarrow>
                 let self = emit [CvShowImage (window_name self)] self;
                     (k, self) = cvdisplay env self
                 in (Inr (if k = 27 then False else True), self))"

text \<open>Successive calls of \<^verbatim>\<open>refresh\<close> on one object, one set of answers per call; the
  run stops at an exception, as the caller's loop would.\<close>

fun refresh_run :: "SlamShow \<Rightarrow> answers list \<Rightarrow> (error + bool list) \<times> SlamShow" where
  "refresh_run self [] = (Inr [], self)"
| "refresh_run self (env # envs) =
     (case refresh self env of
        (Inl e, self') \<Rightarrow> (Inl e, self')
      | (Inr b, self') \<Rightarrow>
         (case refresh_run self' envs of
            (Inl e, self'') \<Rightarrow> (Inl e, self'')
          | (Inr bs, self'') \<Rightarrow> (Inr (b # bs), self'')))"

section \<open>Properties\<close>

subsection \<open>Auxiliary facts\<close>

lemma emit_emit: "emit cs (emit ds self) = emit (ds @ cs) self"
  by (simp add: emit_def)

lemma emit_Nil [simp]: "emit [] self = self"
  by (simp add: emit_def)

lemma fields_emit [simp]:
  "map_size_pixels (emit cs self) = map_size_pixels self"
  "map_scale_mm_per_pixel (emit cs self) = map_scale_mm_per_pixel self"
  "window_name (emit cs self) = window_name self"
  "bgrbytes (emit cs self) = bgrbytes self"
  "figid (emit cs self) = figid self"
  "vehicle (emit cs self) = vehicle self"
  "calls (emit cs self) = calls self @ cs"
  by (simp_all add: emit_def)

lemma fields_init [simp]:
  "map_size_pixels (SlamShow_init n sc w f) = n"
  "map_scale_mm_per_pixel (SlamShow_init n sc w f) = sc"
  "window_name (SlamShow_init n sc w f) = w"
  "figid (SlamShow_init n sc w f) = f"
  "bgrbytes (SlamShow_init n sc w f) = replicate (nat (n * n * 3)) 0"
  by (simp_all add: SlamShow_init_def add_vehicle_def emit_def rotate_offset_def radians_def Let_def)

lemma vehicle_init:
  "vehicle (SlamShow_init n sc w f) =
     \<lparr>arrow_x = 16000, arrow_y = 16000, arrow_dx = 1 / 10, arrow_dy = 0,
      head_width = ROBOT_WIDTH_MM, head_length = ROBOT_HEIGHT_MM\<rparr>"
  by (simp add: SlamShow_init_def add_vehicle_def emit_def rotate_offset_def radians_def Let_def)

subsection \<open>Doubles\<close>

lemma pow2_powr: "pow2 e = 2 powr of_int e"
proof (cases "0 \<le> e")
  case True
  then have "2 powr real_of_int e = 2 powr real (nat e)" by simp
  also have "\<dots> = 2 ^ nat e" by (rule powr_realpow) simp
  finally show ?thesis using True by (simp add: pow2_def)
next
  case False
  then have "real_of_int e = - real (nat (- e))" by simp
  then have "2 powr real_of_int e = inverse (2 powr real (nat (- e)))"
    by (simp only: powr_minus)
  also have "2 powr real (nat (- e)) = 2 ^ nat (- e)" by (rule powr_realpow) simp
  finally show ?thesis using False by (simp add: pow2_def inverse_eq_divide)
qed

lemma pow2_pos [simp]: "0 < pow2 e"
  by (simp add: pow2_powr)

lemma pow2_ge0 [simp]: "0 \<le> pow2 e"
  using pow2_pos [of e] by linarith

lemma pow2_add: "pow2 (a + b) = pow2 a * pow2 b"
  by (simp add: pow2_powr powr_add)

lemma pow2_mono: "a \<le> b \<Longrightarrow> pow2 a \<le> pow2 b"
  by (simp add: pow2_powr)

lemma pow2_numeral [simp]: "pow2 (numeral n) = 2 ^ numeral n"
  by (simp add: pow2_def)

lemma pow2_neg_numeral [simp]: "pow2 (- numeral n) = 1 / 2 ^ numeral n"
  by (simp add: pow2_def)

lemma pow2_0 [simp]: "pow2 0 = 1"
  by (simp add: pow2_def)

lemma pow2_1 [simp]: "pow2 1 = 2"
  by (simp add: pow2_def)

lemma pow2_nonneg: "0 \<le> n \<Longrightarrow> pow2 n = of_int (2 ^ nat n)"
  by (simp add: pow2_def)

lemma pow2_bracket:
  assumes "0 < x"
  shows "pow2 \<lfloor>log 2 x\<rfloor> \<le> x \<and> x < pow2 (\<lfloor>log 2 x\<rfloor> + 1)"
  using assms floor_log_eq_powr_iff [of x 2 "\<lfloor>log 2 x\<rfloor>"]
  by (simp add: pow2_powr)

lemma ulp_exponent_eq:
  assumes "pow2 k \<le> \<bar>x\<bar>" and "\<bar>x\<bar> < pow2 (k + 1)"
  shows "ulp_exponent x = max (k - 52) (- 1074)"
proof -
  have pos: "0 < \<bar>x\<bar>"
    using assms(1) pow2_pos [of k] by linarith
  have "\<lfloor>log 2 \<bar>x\<bar>\<rfloor> = k"
    using assms pos by (simp add: floor_log_eq_powr_iff pow2_powr)
  then show ?thesis by (simp add: ulp_exponent_def)
qed

lemma ulp_exponent_neg [simp]: "ulp_exponent (- x) = ulp_exponent x"
  by (simp add: ulp_exponent_def)

lemma round_half_even_of_int [simp]: "round_half_even (of_int n) = n"
  by (simp add: round_half_even_def)

lemma round_half_even_numeral [simp]: "round_half_even (numeral n) = numeral n"
  using round_half_even_of_int [of "numeral n"] by simp

lemma round_half_even_neg_numeral [simp]: "round_half_even (- numeral n) = - numeral n"
  using round_half_even_of_int [of "- numeral n"] by simp

lemma round_half_even_ge: "of_int a \<le> z \<Longrightarrow> a \<le> round_half_even z"
proof -
  assume "of_int a \<le> z"
  then have "a \<le> \<lfloor>z\<rfloor>" by (simp add: le_floor_iff)
  then show ?thesis by (simp add: round_half_even_def Let_def)
qed

lemma round_half_even_le: "z \<le> of_int b \<Longrightarrow> round_half_even z \<le> b"
proof -
  assume h: "z \<le> of_int b"
  show ?thesis
  proof (cases "z = of_int b")
    case True
    then show ?thesis by simp
  next
    case False
    with h have "z < of_int b" by simp
    then have "\<lfloor>z\<rfloor> < b" by (simp add: floor_less_iff)
    then show ?thesis by (simp add: round_half_even_def Let_def)
  qed
qed

lemma round_half_even_neg: "round_half_even (- z) = - round_half_even z"
proof (cases "z = of_int \<lfloor>z\<rfloor>")
  case True
  then obtain n where z: "z = of_int n" by blast
  have "round_half_even (- z) = - n"
    unfolding z using round_half_even_of_int [of "- n"] by simp
  moreover have "round_half_even z = n"
    unfolding z by simp
  ultimately show ?thesis by simp
next
  case False
  define n where "n = \<lfloor>z\<rfloor>"
  define d where "d = z - of_int n"
  have d: "0 < d" "d < 1"
    using False unfolding d_def n_def by linarith+
  have fl: "\<lfloor>- z\<rfloor> = - n - 1"
  proof (rule floor_unique)
    show "real_of_int (- n - 1) \<le> - z" using d by (simp add: d_def)
    show "- z < real_of_int (- n - 1) + 1" using d by (simp add: d_def)
  qed
  have d': "- z - of_int (- n - 1) = 1 - d"
    by (simp add: d_def)
  have l: "round_half_even z =
      (if d < 1 / 2 then n else if 1 / 2 < d then n + 1 else if even n then n else n + 1)"
    by (simp add: round_half_even_def Let_def n_def d_def)
  have r: "round_half_even (- z) =
      (if 1 - d < 1 / 2 then - n - 1 else if 1 / 2 < 1 - d then - n - 1 + 1
       else if even (- n - 1) then - n - 1 else - n - 1 + 1)"
    unfolding round_half_even_def Let_def fl d' by simp
  show ?thesis
    unfolding l r using d by auto
qed

text \<open>Rounding is odd: \<open>fl (- x)\<close> is the negation of \<open>fl x\<close>.\<close>

lemma fl_neg: "fl (- x) = f_neg (fl x)"
  by (auto simp: fl_def Let_def round_half_even_neg)

text \<open>
  The value of \<open>fl\<close> at a number whose binade \<open>k\<close> is given; with the number, \<open>k\<close> and
  the rounded multiple \<open>m\<close> written out, the premises are closed arithmetic.
\<close>

lemma fl_eval:
  assumes "pow2 k \<le> \<bar>x\<bar>" and "\<bar>x\<bar> < pow2 (k + 1)"
    and "e = max (k - 52) (- 1074)"
    and "m = round_half_even (x / pow2 e)"
    and "\<bar>real_of_int m * pow2 e\<bar> < 2 ^ 1024"
  shows "fl x = Fin (of_int m * pow2 e)"
proof -
  have "0 < \<bar>x\<bar>" using assms(1) pow2_pos [of k] by linarith
  then have "x \<noteq> 0" by simp
  moreover have "ulp_exponent x = e"
    using ulp_exponent_eq [OF assms(1,2)] assms(3) by simp
  ultimately show ?thesis
    using assms(4,5) by (simp add: fl_def Let_def)
qed

text \<open>The rounded value of a positive number, by its binade.\<close>

lemma fl_pos_cases:
  assumes "0 < x"
  obtains k e m where "pow2 k \<le> x" "x < pow2 (k + 1)" "e = max (k - 52) (- 1074)"
    "m = round_half_even (x / pow2 e)"
    "fl x = (if 2 ^ 1024 \<le> \<bar>real_of_int m * pow2 e\<bar> then Inf True else Fin (of_int m * pow2 e))"
proof -
  let ?k = "\<lfloor>log 2 x\<rfloor>"
  have b: "pow2 ?k \<le> x" "x < pow2 (?k + 1)"
    using pow2_bracket [OF assms] by simp_all
  have "ulp_exponent x = max (?k - 52) (- 1074)"
    using assms by (simp add: ulp_exponent_def)
  then have "fl x = (if 2 ^ 1024 \<le> \<bar>real_of_int (round_half_even (x / pow2 (max (?k - 52) (- 1074)))) * pow2 (max (?k - 52) (- 1074))\<bar>
                     then Inf True else Fin (of_int (round_half_even (x / pow2 (max (?k - 52) (- 1074)))) * pow2 (max (?k - 52) (- 1074))))"
    using assms by (simp add: fl_def Let_def)
  with b show ?thesis using that by blast
qed

text \<open>
  Rounding does not cross a double: a double \<open>a \<times> 2\<^sup>j\<close> below \<open>x\<close> is below \<open>fl x\<close>,
  and one above \<open>x\<close> is above \<open>fl x\<close>.
\<close>

lemma fl_lower_pos:
  assumes "0 < a" and "a \<le> 2 ^ 53" and "- 1074 \<le> j" and "of_int a * pow2 j \<le> x"
  shows "fl x = Inf True \<or> (\<exists>y. fl x = Fin y \<and> of_int a * pow2 j \<le> y)"
proof -
  have "0 < real_of_int a * pow2 j" using assms(1) by simp
  with assms(4) have xpos: "0 < x" by linarith
  from fl_pos_cases [OF xpos] obtain k e m where
    k: "pow2 k \<le> x" "x < pow2 (k + 1)" and e: "e = max (k - 52) (- 1074)"
    and m: "m = round_half_even (x / pow2 e)"
    and f: "fl x = (if 2 ^ 1024 \<le> \<bar>real_of_int m * pow2 e\<bar> then Inf True else Fin (of_int m * pow2 e))"
    by blast
  have "of_int a * pow2 j \<le> of_int m * pow2 e"
  proof (cases "e \<le> j")
    case True
    have "pow2 j = pow2 (j - e) * pow2 e"
      using pow2_add [of "j - e" e] by simp
    also have "pow2 (j - e) = of_int (2 ^ nat (j - e))"
      using True by (simp add: pow2_nonneg)
    finally have r: "of_int a * pow2 j = of_int (a * 2 ^ nat (j - e)) * pow2 e"
      by simp
    have "of_int (a * 2 ^ nat (j - e)) * pow2 e \<le> x"
      using assms(4) r by simp
    then have "of_int (a * 2 ^ nat (j - e)) \<le> x / pow2 e"
      by (simp add: pos_le_divide_eq)
    then have "a * 2 ^ nat (j - e) \<le> m"
      unfolding m by (rule round_half_even_ge)
    then have "real_of_int (a * 2 ^ nat (j - e)) \<le> real_of_int m"
      by (simp only: of_int_le_iff)
    then have "real_of_int (a * 2 ^ nat (j - e)) * pow2 e \<le> real_of_int m * pow2 e"
      by (intro mult_right_mono) simp_all
    then show ?thesis by (simp only: r)
  next
    case False
    then have ek: "e = k - 52" using e assms(3) by simp
    have "pow2 k = pow2 52 * pow2 e"
      using pow2_add [of 52 e] ek by simp
    then have "of_int (2 ^ 52) * pow2 e \<le> x"
      using k(1) by simp
    then have "of_int (2 ^ 52) \<le> x / pow2 e"
      by (simp add: pos_le_divide_eq)
    then have "2 ^ 52 \<le> m"
      unfolding m by (rule round_half_even_ge)
    then have "real_of_int (2 ^ 52) \<le> real_of_int m"
      by (simp only: of_int_le_iff)
    then have "real_of_int (2 ^ 52) * pow2 e \<le> real_of_int m * pow2 e"
      by (intro mult_right_mono) simp_all
    then have big: "pow2 (e + 52) \<le> real_of_int m * pow2 e"
      using pow2_add [of e 52] by (simp add: mult.commute)
    have "j + 53 \<le> e + 52" using False by simp
    then have "pow2 (j + 53) \<le> pow2 (e + 52)" by (rule pow2_mono)
    moreover have "real_of_int a * pow2 j \<le> pow2 (j + 53)"
    proof -
      have "real_of_int a \<le> 2 ^ 53" using assms(2) by (metis of_int_le_iff of_int_numeral of_int_power)
      then have "real_of_int a * pow2 j \<le> 2 ^ 53 * pow2 j"
        by (intro mult_right_mono) simp_all
      also have "\<dots> = pow2 (j + 53)"
        using pow2_add [of j 53] by (simp add: mult.commute)
      finally show ?thesis .
    qed
    ultimately show ?thesis using big by linarith
  qed
  then show ?thesis using f by (cases "2 ^ 1024 \<le> \<bar>real_of_int m * pow2 e\<bar>") simp_all
qed

lemma pow2_neq0 [simp]: "pow2 e \<noteq> 0"
  using pow2_pos [of e] by linarith

lemma round_half_even_nonneg: "0 \<le> z \<Longrightarrow> 0 \<le> round_half_even z"
  using round_half_even_ge [of 0 z] by simp

lemma fl_upper_pos:
  assumes "0 < x" and "a \<le> 2 ^ 53" and "- 1074 \<le> j" and "x \<le> of_int a * pow2 j"
    and "of_int a * pow2 j < 2 ^ 1024"
  shows "\<exists>y. fl x = Fin y \<and> 0 \<le> y \<and> y \<le> of_int a * pow2 j"
proof -
  from fl_pos_cases [OF assms(1)] obtain k e m where
    k: "pow2 k \<le> x" "x < pow2 (k + 1)" and e: "e = max (k - 52) (- 1074)"
    and m: "m = round_half_even (x / pow2 e)"
    and f: "fl x = (if 2 ^ 1024 \<le> \<bar>real_of_int m * pow2 e\<bar> then Inf True else Fin (of_int m * pow2 e))"
    by blast
  have "0 \<le> x / pow2 e" using assms(1) by simp
  then have m0: "0 \<le> m" unfolding m by (rule round_half_even_nonneg)
  then have y0: "0 \<le> real_of_int m * pow2 e" by simp
  have "of_int m * pow2 e \<le> of_int a * pow2 j"
  proof (cases "e \<le> j")
    case True
    have "pow2 j = pow2 (j - e) * pow2 e"
      using pow2_add [of "j - e" e] by simp
    also have "pow2 (j - e) = of_int (2 ^ nat (j - e))"
      using True by (simp add: pow2_nonneg)
    finally have r: "of_int a * pow2 j = of_int (a * 2 ^ nat (j - e)) * pow2 e"
      by simp
    have "x \<le> of_int (a * 2 ^ nat (j - e)) * pow2 e"
      using assms(4) r by simp
    then have "x / pow2 e \<le> of_int (a * 2 ^ nat (j - e))"
      by (simp add: pos_divide_le_eq)
    then have "m \<le> a * 2 ^ nat (j - e)"
      unfolding m by (rule round_half_even_le)
    then have "real_of_int m \<le> real_of_int (a * 2 ^ nat (j - e))"
      by (simp only: of_int_le_iff)
    then have "real_of_int m * pow2 e \<le> real_of_int (a * 2 ^ nat (j - e)) * pow2 e"
      by (intro mult_right_mono) simp_all
    then show ?thesis by (simp only: r)
  next
    case False
    then have ek: "e = k - 52" using e assms(3) by simp
    have pk: "pow2 k = of_int (2 ^ 52) * pow2 e"
      using pow2_add [of 52 e] ek by simp
    have "real_of_int a \<le> 2 ^ 53" using assms(2) by (metis of_int_le_iff of_int_numeral of_int_power)
    then have "real_of_int a * pow2 j \<le> 2 ^ 53 * pow2 j"
      by (intro mult_right_mono) simp_all
    also have "\<dots> = pow2 (j + 53)"
      using pow2_add [of j 53] by (simp add: mult.commute)
    also have "\<dots> \<le> pow2 k"
      using False ek by (intro pow2_mono) simp
    finally have rk: "real_of_int a * pow2 j \<le> pow2 k" .
    with k(1) assms(4) have xk: "x = pow2 k" and rx: "real_of_int a * pow2 j = x" by linarith+
    have "x / pow2 e = of_int (2 ^ 52)"
      unfolding xk pk by simp
    then have "m = 2 ^ 52"
      unfolding m by (simp only: round_half_even_of_int)
    then have "real_of_int m * pow2 e = x"
      unfolding xk pk by simp
    with rx show ?thesis by simp
  qed
  with y0 assms(5) f show ?thesis by simp
qed

lemma fl_abs_upper:
  assumes "a \<le> 2 ^ 53" and "- 1074 \<le> j" and "\<bar>x\<bar> \<le> of_int a * pow2 j"
    and "of_int a * pow2 j < 2 ^ 1024"
  shows "\<exists>y. fl x = Fin y \<and> \<bar>y\<bar> \<le> of_int a * pow2 j"
proof -
  have r0: "0 \<le> real_of_int a * pow2 j" using assms(3) by linarith
  consider "x = 0" | "0 < x" | "x < 0" by linarith
  then show ?thesis
  proof cases
    case 1
    then show ?thesis using r0 by (simp add: fl_def)
  next
    case 2
    with assms have "x \<le> of_int a * pow2 j" by simp
    from fl_upper_pos [OF 2 assms(1,2) this assms(4)] show ?thesis by auto
  next
    case 3
    then have p: "0 < - x" by simp
    with assms 3 have "- x \<le> of_int a * pow2 j" by simp
    from fl_upper_pos [OF p assms(1,2) this assms(4)] obtain y where
      "fl (- x) = Fin y" "0 \<le> y" "y \<le> of_int a * pow2 j" by blast
    moreover have "fl x = f_neg (fl (- x))" using fl_neg [of "- x"] by simp
    ultimately show ?thesis by simp
  qed
qed

lemma fl_abs_lower:
  assumes "0 < a" and "a \<le> 2 ^ 53" and "- 1074 \<le> j" and "of_int a * pow2 j \<le> \<bar>x\<bar>"
  shows "(\<exists>b. fl x = Inf b) \<or> (\<exists>y. fl x = Fin y \<and> of_int a * pow2 j \<le> \<bar>y\<bar>)"
proof (cases "0 \<le> x")
  case True
  with assms(4) have "of_int a * pow2 j \<le> x" by simp
  from fl_lower_pos [OF assms(1,2,3) this] show ?thesis by fastforce
next
  case False
  with assms(4) have "of_int a * pow2 j \<le> - x" by simp
  from fl_lower_pos [OF assms(1,2,3) this] have
    "fl (- x) = Inf True \<or> (\<exists>y. fl (- x) = Fin y \<and> of_int a * pow2 j \<le> y)" .
  moreover have "fl x = f_neg (fl (- x))" using fl_neg [of "- x"] by simp
  ultimately show ?thesis by fastforce
qed

text \<open>Integers up to \<open>2\<^sup>5\<^sup>3\<close> in magnitude are doubles.\<close>

lemma fl_of_int:
  assumes "\<bar>n\<bar> \<le> 2 ^ 53"
  shows "fl (of_int n) = Fin (of_int n)"
proof (cases "n = 0")
  case True
  then show ?thesis by (simp add: fl_def)
next
  case False
  define a where "a = \<bar>n\<bar>"
  have a: "0 < a" "a \<le> 2 ^ 53" using False assms by (simp_all add: a_def)
  have ax: "\<bar>real_of_int n\<bar> = of_int a * pow2 0" by (simp add: a_def)
  have "real_of_int a \<le> 2 ^ 53" using a(2) by (metis of_int_le_iff of_int_numeral of_int_power)
  then have small: "real_of_int a * pow2 0 < 2 ^ 1024" by simp
  from fl_abs_upper [OF a(2) _ _ small, of "of_int n"] ax
  obtain y where y: "fl (of_int n) = Fin y" "\<bar>y\<bar> \<le> of_int a * pow2 0" by auto
  from fl_abs_lower [OF a _ , of 0 "of_int n"] ax y(1)
  have "of_int a * pow2 0 \<le> \<bar>y\<bar>" by auto
  with y(2) have abs: "\<bar>y\<bar> = \<bar>real_of_int n\<bar>" using ax by simp
  have sign: "(0 \<le> y) = (0 \<le> real_of_int n)"
  proof (cases "0 \<le> n")
    case True
    then have "0 < real_of_int n" using False by simp
    from fl_upper_pos [OF this a(2), of 0] True small y(1) show ?thesis
      by (simp add: a_def)
  next
    case False
    then have p: "0 < - real_of_int n" by simp
    from fl_upper_pos [OF p a(2), of 0] False small
    obtain z where "fl (- real_of_int n) = Fin z" "0 \<le> z" by (auto simp: a_def)
    moreover have "fl (real_of_int n) = f_neg (fl (- real_of_int n))"
      using fl_neg [of "- real_of_int n"] by simp
    ultimately have "y \<le> 0" using y(1) by simp
    moreover have "y \<noteq> 0" using abs \<open>n \<noteq> 0\<close> by auto
    ultimately show ?thesis using False by simp
  qed
  from abs sign have "y = real_of_int n" by linarith
  with y(1) show ?thesis by simp
qed


lemma pow2_m1 [simp]: "pow2 (- 1) = 1 / 2"
  by (simp add: pow2_def)

lemma fl_0 [simp]: "fl 0 = Fin 0"
  by (simp add: fl_def)

lemma fl_nonneg:
  assumes "0 \<le> x" and "fl x = Fin q"
  shows "0 \<le> q"
proof (cases "x = 0")
  case True
  with assms(2) show ?thesis by simp
next
  case False
  with assms(1) have "0 < x" by simp
  from fl_pos_cases [OF this] obtain k e m where
    m: "m = round_half_even (x / pow2 e)"
    and f: "fl x = (if 2 ^ 1024 \<le> \<bar>real_of_int m * pow2 e\<bar> then Inf True else Fin (of_int m * pow2 e))"
    by blast
  have "0 \<le> x / pow2 e" using assms(1) by simp
  then have "0 \<le> m" unfolding m by (rule round_half_even_nonneg)
  then have "0 \<le> real_of_int m * pow2 e" by simp
  with f assms(2) show ?thesis
    by (cases "2 ^ 1024 \<le> \<bar>real_of_int m * pow2 e\<bar>") simp_all
qed

lemma fl_nonpos:
  assumes "x \<le> 0" and "fl x = Fin q"
  shows "q \<le> 0"
proof -
  have "fl (- x) = Fin (- q)" using fl_neg [of x] assms(2) by simp
  moreover have "0 \<le> - x" using assms(1) by simp
  ultimately have "0 \<le> - q" by (rule fl_nonneg [rotated])
  then show ?thesis by simp
qed

text \<open>A number of 53 significant bits within the range of the exponents is a double.\<close>

lemma fl_exact:
  assumes "x = of_int a * pow2 j" and "\<bar>a\<bar> \<le> 2 ^ 53" and "- 1074 \<le> j" and "\<bar>x\<bar> < 2 ^ 1024"
  shows "fl x = Fin x"
proof (cases "a = 0")
  case True
  with assms(1) show ?thesis by simp
next
  case False
  define b where "b = \<bar>a\<bar>"
  have b: "0 < b" "b \<le> 2 ^ 53" using False assms(2) by (simp_all add: b_def)
  have ax: "\<bar>x\<bar> = of_int b * pow2 j"
    by (simp add: assms(1) b_def abs_mult)
  have small: "real_of_int b * pow2 j < 2 ^ 1024"
    using assms(4) ax by simp
  from fl_abs_upper [OF b(2) assms(3) _ small, of x] ax
  obtain y where y: "fl x = Fin y" "\<bar>y\<bar> \<le> of_int b * pow2 j" by auto
  from fl_abs_lower [OF b assms(3), of x] ax y(1)
  have "of_int b * pow2 j \<le> \<bar>y\<bar>" by auto
  with y(2) ax have abs: "\<bar>y\<bar> = \<bar>x\<bar>" by simp
  have "y = x"
  proof (cases "0 \<le> x")
    case True
    then have "0 \<le> y" using y(1) by (rule fl_nonneg)
    with True abs show ?thesis by simp
  next
    case False
    then have "x \<le> 0" by simp
    then have "y \<le> 0" using y(1) by (rule fl_nonpos)
    with False abs show ?thesis by simp
  qed
  with y(1) show ?thesis by simp
qed

lemma fl_numeral [simp]: "numeral n \<le> (2 ^ 53 :: int) \<Longrightarrow> fl (numeral n) = Fin (numeral n)"
  using fl_of_int [of "numeral n"] by simp

lemma fl_neg_numeral [simp]: "numeral n \<le> (2 ^ 53 :: int) \<Longrightarrow> fl (- numeral n) = Fin (- numeral n)"
  using fl_of_int [of "- numeral n"] by simp

lemma fl_1 [simp]: "fl 1 = Fin 1"
  using fl_of_int [of 1] by simp

subsection \<open>Truncation\<close>

lemma toward_zero_neg: "r < 0 \<Longrightarrow> toward_zero r = \<lceil>r\<rceil>"
  by (simp add: toward_zero_def)

lemma toward_zero_pos: "0 \<le> r \<Longrightarrow> toward_zero r = \<lfloor>r\<rfloor>"
  by (simp add: toward_zero_def)

lemma toward_zero_of_int [simp]: "toward_zero (of_int n) = n"
  by (simp add: toward_zero_def)

lemma toward_zero_0 [simp]: "toward_zero 0 = 0"
  by (simp add: toward_zero_def)

lemma toward_zero_numeral [simp]: "toward_zero (numeral k) = numeral k"
  by (simp add: toward_zero_def)

lemma toward_zero_neg_numeral [simp]: "toward_zero (- numeral k) = - numeral k"
  by (simp add: toward_zero_def)



lemma toward_zero_abs: "\<bar>toward_zero r\<bar> = \<lfloor>\<bar>r\<bar>\<rfloor>"
proof (cases "r < 0")
  case True
  then have "\<lceil>r\<rceil> \<le> 0" by (simp add: ceiling_le_zero)
  then have "\<bar>\<lceil>r\<rceil>\<bar> = - \<lceil>r\<rceil>" by simp
  also have "\<dots> = \<lfloor>- r\<rfloor>" by (simp add: ceiling_def)
  finally show ?thesis using True by (simp add: toward_zero_neg)
next
  case False
  then have "0 \<le> \<lfloor>r\<rfloor>" by simp
  then show ?thesis using False by (simp add: toward_zero_pos)
qed



subsection \<open>Python arithmetic\<close>

lemma error_bind_Inr [simp]: "error_bind (Inr v) f = f v"
  by (simp add: error_bind_def)

lemma error_bind_Inl [simp]: "error_bind (Inl e) f = Inl e"
  by (simp add: error_bind_def)

lemma float_of_real_Fin: "fl r = Fin s \<Longrightarrow> float_of_real r = Inr (Fin s)"
  by (simp add: float_of_real_def)

lemma float_of_real_Inf: "fl r = Inf b \<Longrightarrow> float_of_real r = Inl OverflowError"
  by (simp add: float_of_real_def)

lemma to_float_PyFloat [simp]: "to_float (PyFloat f) = Inr f"
  by (simp add: to_float_def)

lemma to_float_PyInt: "\<bar>n\<bar> \<le> 2 ^ 53 \<Longrightarrow> to_float (PyInt n) = Inr (Fin (of_int n))"
  by (simp add: to_float_def float_of_real_Fin fl_of_int)



lemma py_mul_float:
  "to_float a = Inr x \<Longrightarrow> py_mul a (PyFloat y) = Inr (PyFloat (f_mul x y))"
  by (cases a) (simp_all add: py_mul_def)

lemma py_int_Fin [simp]: "py_int (PyFloat (Fin r)) = Inr (toward_zero r)"
  by (simp add: py_int_def)

lemma py_int_Inf [simp]: "py_int (PyFloat (Inf b)) = Inl OverflowError"
  by (simp add: py_int_def)

lemma py_int_PyInt [simp]: "py_int (PyInt n) = Inr n"
  by (simp add: py_int_def)

subsection \<open>Millimetres to pixels\<close>




lemma fl_tenth: "fl (1 / 10) = Fin (3602879701896397 / 2 ^ 55)"
  using fl_eval [of "- 4" "1 / 10" "- 56" 7205759403792794]
  by (simp add: round_half_even_def Let_def)









subsection \<open>The trajectory\<close>

lemma mm2pix_emit [simp]: "mm2pix (emit cs self) mm = mm2pix self mm"
  by (simp add: mm2pix_def)

lemma pix_point_emit [simp]: "pix_point (emit cs self) p = pix_point self p"
  by (simp add: pix_point_def cong: sum.case_cong)






subsection \<open>The velocity bars\<close>























subsection \<open>Rotation of a point\<close>

lemma degToRad_eq: "degToRad = Fin (5030569068109113 / 2 ^ 58)"
  unfolding degToRad_def Py_MATH_PI_def
  using fl_eval [of "- 6" "884279719003555 / 2 ^ 48 / 180" "- 58" 5030569068109113]
  by (simp add: round_half_even_def Let_def)

lemma radians_0: "math_radians (PyInt 0) = Inr (Fin 0)"
  by (simp add: math_radians_def to_float_PyInt degToRad_eq)

lemma radians_30: "math_radians (PyInt 30) = Inr (Fin (4716158501352293 / 2 ^ 53))"
  using fl_eval [of "- 1" "30 * (5030569068109113 / 2 ^ 58)" "- 53" 4716158501352293]
  by (simp add: math_radians_def to_float_PyInt degToRad_eq round_half_even_def Let_def)

lemma radians_90: "math_radians (PyInt 90) = Inr (Fin (884279719003555 / 2 ^ 49))"
  using fl_eval [of 0 "90 * (5030569068109113 / 2 ^ 58)" "- 52" 7074237752028440]
  by (simp add: math_radians_def to_float_PyInt degToRad_eq round_half_even_def Let_def)

lemma radians_180: "math_radians (PyInt 180) = Inr (Fin (884279719003555 / 2 ^ 48))"
  using fl_eval [of 1 "180 * (5030569068109113 / 2 ^ 58)" "- 51" 7074237752028440]
  by (simp add: math_radians_def to_float_PyInt degToRad_eq round_half_even_def Let_def)

lemma rotate_eq:
  assumes "math_radians deg = Inr (Fin rad)" and "m_cos lib rad = Fin c" and "m_sin lib rad = Fin s"
    and "to_float px = Inr (Fin x)" and "to_float py = Inr (Fin y)"
    and "fl (x * c) = Fin xc" and "fl (y * s) = Fin ys" and "fl (xc - ys) = Fin d1"
    and "fl (x * s) = Fin xs" and "fl (y * c) = Fin yc" and "fl (xs + yc) = Fin d2"
  shows "rotate lib (px, py) deg = Inr (toward_zero d1, toward_zero d2)"
  using assms
  by (simp add: rotate_def math_cos_def math_sin_def py_mul_float py_sub_def py_add_def f_sub_def)

lemma rotate_0:
  assumes "m_cos lib 0 = Fin 1" and "m_sin lib 0 = Fin 0"
    and "to_float px = Inr (Fin x)" and "to_float py = Inr (Fin y)"
    and "fl x = Fin x" and "fl y = Fin y"
  shows "rotate lib (px, py) (PyInt 0) = Inr (toward_zero x, toward_zero y)"
  using rotate_eq [OF radians_0 assms(1,2,3,4), of x 0 x 0 y y] assms(5,6) by simp

lemma rotate_0_int:
  assumes "m_cos lib 0 = Fin 1" and "m_sin lib 0 = Fin 0"
    and "\<bar>a\<bar> \<le> 2 ^ 53" and "\<bar>b\<bar> \<le> 2 ^ 53"
  shows "rotate lib (PyInt a, PyInt b) (PyInt 0) = Inr (a, b)"
  using rotate_0 [OF assms(1,2) to_float_PyInt [OF assms(3)] to_float_PyInt [OF assms(4)]
      fl_of_int [OF assms(3)] fl_of_int [OF assms(4)]]
  by (simp add: toward_zero_of_int)

lemma toward_zero_small: "\<bar>r\<bar> \<le> 1 / 2 \<Longrightarrow> toward_zero r = 0"
proof -
  assume "\<bar>r\<bar> \<le> 1 / 2"
  then have "\<lfloor>\<bar>r\<bar>\<rfloor> = 0" by (simp add: floor_eq_iff)
  then have "\<bar>toward_zero r\<bar> = 0" by (simp only: toward_zero_abs)
  then show ?thesis by simp
qed

lemma fl_small:
  assumes "\<bar>x\<bar> \<le> 1 / 2"
  shows "\<exists>y. fl x = Fin y \<and> \<bar>y\<bar> \<le> 1 / 2"
  using fl_abs_upper [of 1 "- 1" x] assms by simp

lemma rotate_90:
  assumes "math_radians (PyInt 90) = Inr (Fin h)"
    and "m_cos lib h = Fin c" and "\<bar>c\<bar> \<le> 1 / 32" and "m_sin lib h = Fin 1"
  shows "rotate lib (PyInt 10, PyInt 0) (PyInt 90) = Inr (0, 10)"
proof -
  have "\<bar>10 * c\<bar> \<le> 1 / 2" using assms(3) by (simp add: abs_mult)
  from fl_small [OF this] obtain xc where xc: "fl (10 * c) = Fin xc" "\<bar>xc\<bar> \<le> 1 / 2" by blast
  from fl_small [OF xc(2)] obtain d1 where d1: "fl xc = Fin d1" "\<bar>d1\<bar> \<le> 1 / 2" by blast
  have "rotate lib (PyInt 10, PyInt 0) (PyInt 90) = Inr (toward_zero d1, toward_zero 10)"
    using rotate_eq [OF assms(1,2,4), of "PyInt 10" 10 "PyInt 0" 0 xc 0 d1 10 0 10] xc(1) d1(1)
    by (simp add: to_float_PyInt)
  then show ?thesis using toward_zero_small [OF d1(2)] by simp
qed

lemma rotate_180:
  assumes "math_radians (PyInt 180) = Inr (Fin h)"
    and "m_cos lib h = Fin (- 1)" and "m_sin lib h = Fin s" and "\<bar>s\<bar> \<le> 1 / 32"
  shows "rotate lib (PyInt 10, PyInt 0) (PyInt 180) = Inr (- 10, 0)"
proof -
  have "\<bar>10 * s\<bar> \<le> 1 / 2" using assms(4) by (simp add: abs_mult)
  from fl_small [OF this] obtain xs where xs: "fl (10 * s) = Fin xs" "\<bar>xs\<bar> \<le> 1 / 2" by blast
  from fl_small [OF xs(2)] obtain d2 where d2: "fl xs = Fin d2" "\<bar>d2\<bar> \<le> 1 / 2" by blast
  have "rotate lib (PyInt 10, PyInt 0) (PyInt 180) = Inr (toward_zero (- 10), toward_zero d2)"
    using rotate_eq [OF assms(1,2,3), of "PyInt 10" 10 "PyInt 0" 0 "- 10" 0 "- 10" xs 0 d2] xs(1) d2(1)
    by (simp add: to_float_PyInt)
  then show ?thesis using toward_zero_small [OF d2(2)] by simp
qed

lemma measured_0: "m_cos measured_libm 0 = Fin 1" "m_sin measured_libm 0 = Fin 0"
  by (simp_all add: measured_libm_def)

lemma measured_30:
  "m_cos measured_libm (4716158501352293 / 2 ^ 53) = Fin (7800463371553963 / 2 ^ 53)"
  "m_sin measured_libm (4716158501352293 / 2 ^ 53) = Fin (9007199254740991 / 2 ^ 54)"
  by (simp_all add: measured_libm_def)

lemma measured_90:
  "m_cos measured_libm (884279719003555 / 2 ^ 49) = Fin (4967757600021511 / 2 ^ 106)"
  "m_sin measured_libm (884279719003555 / 2 ^ 49) = Fin 1"
  by (simp_all add: measured_libm_def)

lemma measured_180:
  "m_cos measured_libm (884279719003555 / 2 ^ 48) = Fin (- 1)"
  "m_sin measured_libm (884279719003555 / 2 ^ 48) = Fin (4967757600021511 / 2 ^ 105)"
  by (simp_all add: measured_libm_def)

lemma rotate_fraction:
  "rotate measured_libm (PyFloat (Fin (- 4)), PyFloat (Fin (5 / 2))) (PyInt 0) = Inr (- 4, 2)"
proof -
  have "fl (5 / 2) = Fin (5 / 2)"
    using fl_exact [of "5 / 2" 5 "- 1"] by simp
  then show ?thesis
    using rotate_0 [OF measured_0, of "PyFloat (Fin (- 4))" "- 4" "PyFloat (Fin (5 / 2))" "5 / 2"]
    by (simp add: toward_zero_def)
qed

lemma rotate_8_30: "rotate measured_libm (PyInt 8, PyInt 0) (PyInt 30) = Inr (6, 3)"
proof -
  have a: "fl (8 * (7800463371553963 / 2 ^ 53)) = Fin (7800463371553963 / 2 ^ 50)"
    using fl_exact [of "7800463371553963 / 2 ^ 50" 7800463371553963 "- 50"] by simp
  have b: "fl (7800463371553963 / 2 ^ 50 - 0) = Fin (7800463371553963 / 2 ^ 50)"
    using fl_exact [of "7800463371553963 / 2 ^ 50" 7800463371553963 "- 50"] by simp
  have c: "fl (8 * (9007199254740991 / 2 ^ 54)) = Fin (9007199254740991 / 2 ^ 51)"
    using fl_exact [of "9007199254740991 / 2 ^ 51" 9007199254740991 "- 51"] by simp
  have d: "fl (9007199254740991 / 2 ^ 51 + 0) = Fin (9007199254740991 / 2 ^ 51)"
    using fl_exact [of "9007199254740991 / 2 ^ 51" 9007199254740991 "- 51"] by simp
  have "rotate measured_libm (PyInt 8, PyInt 0) (PyInt 30)
          = Inr (toward_zero (7800463371553963 / 2 ^ 50), toward_zero (9007199254740991 / 2 ^ 51))"
    using rotate_eq [OF radians_30 measured_30, of "PyInt 8" 8 "PyInt 0" 0, OF _ _ a _ b c _ d]
    by (simp add: to_float_PyInt)
  then show ?thesis by (simp add: toward_zero_def floor_eq_iff)
qed

lemma sin_radians_30: "toward_zero (8 * sin (radians 30)) = 4"
proof -
  have "radians 30 = pi / 6" by (simp add: radians_def)
  then have "sin (radians 30) = 1 / 2" by (simp only: sin_30)
  then show ?thesis by (simp only: toward_zero_def) simp
qed

lemma rotate_10_180_measured:
  "fl (10 * (4967757600021511 / 2 ^ 105)) = Fin (6209697000026889 / 2 ^ 102)"
  "fl (6209697000026889 / 2 ^ 102 + 0) = Fin (6209697000026889 / 2 ^ 102)"
proof -
  show "fl (10 * (4967757600021511 / 2 ^ 105)) = Fin (6209697000026889 / 2 ^ 102)"
    using fl_eval [of "- 50" "10 * (4967757600021511 / 2 ^ 105)" "- 102" 6209697000026889]
    by (simp add: round_half_even_def Let_def floor_eq_iff)
  show "fl (6209697000026889 / 2 ^ 102 + 0) = Fin (6209697000026889 / 2 ^ 102)"
    using fl_exact [of "6209697000026889 / 2 ^ 102" 6209697000026889 "- 102"] by simp
qed

text \<open>
  C5. \<^verbatim>\<open>rotate\<close> evaluates the counter-clockwise rotation formulas
  \<open>x c - y s\<close> and \<open>x s + y c\<close> in double arithmetic, with \<open>c\<close> and \<open>s\<close> the C library's cosine
  and sine of \<^verbatim>\<open>radians(deg)\<close>, each product, the difference and the sum rounded to a double,
  and truncates both results toward zero:

  \<^item> whenever all the intermediate doubles are finite, the result is the pair of the truncated
    difference and the truncated sum;
  \<^item> with a library for which \<open>cos 0 = 1\<close> and \<open>sin 0 = 0\<close>, rotation by 0 is the identity on
    points with int coordinates of magnitude at most \<open>2\<^sup>5\<^sup>3\<close>, and truncates each coordinate
    of a point with float coordinates toward zero;
  \<^item> with a library whose sine of \<^verbatim>\<open>radians(90)\<close> is 1 and whose cosine there is at most
    1/32 in magnitude, \<^verbatim>\<open>rotate((10,0), 90)\<close> is \<open>(0, 10)\<close>;
  \<^item> with a library whose cosine of \<^verbatim>\<open>radians(180)\<close> is -1 and whose sine there is at most
    1/32 in magnitude, \<^verbatim>\<open>rotate((10,0), 180)\<close> is \<open>(-10, 0)\<close>;
  \<^item> \<^verbatim>\<open>radians(90)\<close> and \<^verbatim>\<open>radians(180)\<close> are the doubles nearest to \<open>\<pi>/2\<close> and \<open>\<pi>\<close>.
\<close>

theorem rotate_ccw_truncating:
  "(math_radians deg = Inr (Fin rad) \<and> m_cos lib rad = Fin c \<and> m_sin lib rad = Fin s
      \<and> to_float px = Inr (Fin x) \<and> to_float py = Inr (Fin y)
      \<and> fl (x * c) = Fin xc \<and> fl (y * s) = Fin ys \<and> fl (xc - ys) = Fin d1
      \<and> fl (x * s) = Fin xs \<and> fl (y * c) = Fin yc \<and> fl (xs + yc) = Fin d2 \<longrightarrow>
    rotate lib (px, py) deg = Inr (toward_zero d1, toward_zero d2))
   \<and> (m_cos lib 0 = Fin 1 \<and> m_sin lib 0 = Fin 0 \<and> \<bar>a\<bar> \<le> 2 ^ 53 \<and> \<bar>b\<bar> \<le> 2 ^ 53 \<longrightarrow>
        rotate lib (PyInt a, PyInt b) (PyInt 0) = Inr (a, b))
   \<and> (m_cos lib 0 = Fin 1 \<and> m_sin lib 0 = Fin 0 \<and> fl u = Fin u \<and> fl v = Fin v \<longrightarrow>
        rotate lib (PyFloat (Fin u), PyFloat (Fin v)) (PyInt 0) = Inr (toward_zero u, toward_zero v))
   \<and> (m_cos lib (884279719003555 / 2 ^ 49) = Fin c90 \<and> \<bar>c90\<bar> \<le> 1 / 32
         \<and> m_sin lib (884279719003555 / 2 ^ 49) = Fin 1 \<longrightarrow>
        rotate lib (PyInt 10, PyInt 0) (PyInt 90) = Inr (0, 10))
   \<and> (m_cos lib (884279719003555 / 2 ^ 48) = Fin (- 1)
         \<and> m_sin lib (884279719003555 / 2 ^ 48) = Fin s180 \<and> \<bar>s180\<bar> \<le> 1 / 32 \<longrightarrow>
        rotate lib (PyInt 10, PyInt 0) (PyInt 180) = Inr (- 10, 0))
   \<and> math_radians (PyInt 90) = Inr (Fin (884279719003555 / 2 ^ 49))
   \<and> math_radians (PyInt 180) = Inr (Fin (884279719003555 / 2 ^ 48))
   \<and> Py_MATH_PI = 884279719003555 / 2 ^ 48"
proof (intro conjI impI)
  assume "math_radians deg = Inr (Fin rad) \<and> m_cos lib rad = Fin c \<and> m_sin lib rad = Fin s
      \<and> to_float px = Inr (Fin x) \<and> to_float py = Inr (Fin y)
      \<and> fl (x * c) = Fin xc \<and> fl (y * s) = Fin ys \<and> fl (xc - ys) = Fin d1
      \<and> fl (x * s) = Fin xs \<and> fl (y * c) = Fin yc \<and> fl (xs + yc) = Fin d2"
  then show "rotate lib (px, py) deg = Inr (toward_zero d1, toward_zero d2)"
    using rotate_eq [of deg rad lib c s px x py y xc ys d1 xs yc d2] by blast
next
  assume "m_cos lib 0 = Fin 1 \<and> m_sin lib 0 = Fin 0 \<and> \<bar>a\<bar> \<le> 2 ^ 53 \<and> \<bar>b\<bar> \<le> 2 ^ 53"
  then show "rotate lib (PyInt a, PyInt b) (PyInt 0) = Inr (a, b)"
    using rotate_0_int [of lib a b] by blast
next
  assume "m_cos lib 0 = Fin 1 \<and> m_sin lib 0 = Fin 0 \<and> fl u = Fin u \<and> fl v = Fin v"
  then show "rotate lib (PyFloat (Fin u), PyFloat (Fin v)) (PyInt 0) = Inr (toward_zero u, toward_zero v)"
    using rotate_0 [of lib "PyFloat (Fin u)" u "PyFloat (Fin v)" v] by simp
next
  assume "m_cos lib (884279719003555 / 2 ^ 49) = Fin c90 \<and> \<bar>c90\<bar> \<le> 1 / 32
         \<and> m_sin lib (884279719003555 / 2 ^ 49) = Fin 1"
  then show "rotate lib (PyInt 10, PyInt 0) (PyInt 90) = Inr (0, 10)"
    using rotate_90 [OF radians_90, of lib c90] by blast
next
  assume "m_cos lib (884279719003555 / 2 ^ 48) = Fin (- 1)
         \<and> m_sin lib (884279719003555 / 2 ^ 48) = Fin s180 \<and> \<bar>s180\<bar> \<le> 1 / 32"
  then show "rotate lib (PyInt 10, PyInt 0) (PyInt 180) = Inr (- 10, 0)"
    using rotate_180 [OF radians_180, of lib s180] by blast
next
  show "math_radians (PyInt 90) = Inr (Fin (884279719003555 / 2 ^ 49))" by (rule radians_90)
  show "math_radians (PyInt 180) = Inr (Fin (884279719003555 / 2 ^ 48))" by (rule radians_180)
  show "Py_MATH_PI = 884279719003555 / 2 ^ 48" by (rule Py_MATH_PI_def)
qed

theorem rotate_ccw_truncating_witness:
  "math_radians (PyInt 180) = Inr (Fin (884279719003555 / 2 ^ 48))
   \<and> m_cos measured_libm (884279719003555 / 2 ^ 48) = Fin (- 1)
   \<and> m_sin measured_libm (884279719003555 / 2 ^ 48) = Fin (4967757600021511 / 2 ^ 105)
   \<and> \<bar>4967757600021511 / 2 ^ 105 :: real\<bar> \<le> 1 / 32
   \<and> to_float (PyInt 10) = Inr (Fin 10) \<and> to_float (PyInt 0) = Inr (Fin 0)
   \<and> fl (10 * - 1) = Fin (- 10) \<and> fl (0 * (4967757600021511 / 2 ^ 105)) = Fin 0
   \<and> fl (- 10 - 0) = Fin (- 10)
   \<and> fl (10 * (4967757600021511 / 2 ^ 105)) = Fin (6209697000026889 / 2 ^ 102)
   \<and> fl (0 * - 1) = Fin 0
   \<and> fl (6209697000026889 / 2 ^ 102 + 0) = Fin (6209697000026889 / 2 ^ 102)
   \<and> toward_zero (- 10) = - 10 \<and> toward_zero (6209697000026889 / 2 ^ 102) = 0
   \<and> rotate measured_libm (PyInt 10, PyInt 0) (PyInt 180) = Inr (- 10, 0)
   \<and> m_cos measured_libm 0 = Fin 1 \<and> m_sin measured_libm 0 = Fin 0
   \<and> \<bar>7 :: int\<bar> \<le> 2 ^ 53 \<and> \<bar>- 3 :: int\<bar> \<le> 2 ^ 53
   \<and> rotate measured_libm (PyInt 7, PyInt (- 3)) (PyInt 0) = Inr (7, - 3)
   \<and> fl (- 4) = Fin (- 4) \<and> fl (5 / 2) = Fin (5 / 2)
   \<and> rotate measured_libm (PyFloat (Fin (- 4)), PyFloat (Fin (5 / 2))) (PyInt 0) = Inr (- 4, 2)
   \<and> m_cos measured_libm (884279719003555 / 2 ^ 49) = Fin (4967757600021511 / 2 ^ 106)
   \<and> \<bar>4967757600021511 / 2 ^ 106 :: real\<bar> \<le> 1 / 32
   \<and> m_sin measured_libm (884279719003555 / 2 ^ 49) = Fin 1
   \<and> rotate measured_libm (PyInt 10, PyInt 0) (PyInt 90) = Inr (0, 10)"
proof -
  note t = rotate_ccw_truncating [of "PyInt 180" "884279719003555 / 2 ^ 48" measured_libm "- 1"
      "4967757600021511 / 2 ^ 105" "PyInt 10" 10 "PyInt 0" 0 "- 10" 0 "- 10"
      "6209697000026889 / 2 ^ 102" 0 "6209697000026889 / 2 ^ 102" 7 "- 3" "- 4" "5 / 2"
      "4967757600021511 / 2 ^ 106" "4967757600021511 / 2 ^ 105"]
  have h1: "to_float (PyInt 10) = Inr (Fin 10)" "to_float (PyInt 0) = Inr (Fin 0)"
    by (simp_all add: to_float_PyInt)
  have h2: "fl (5 / 2) = Fin (5 / 2)"
    using fl_exact [of "5 / 2" 5 "- 1"] by simp
  have h3: "toward_zero (6209697000026889 / 2 ^ 102) = 0"
    by (rule toward_zero_small) simp
  have h4: "toward_zero (5 / 2) = 2" by (simp add: toward_zero_def)
  have r1: "rotate measured_libm (PyInt 10, PyInt 0) (PyInt 180) = Inr (- 10, 0)"
    using t measured_180 by simp
  have r2: "rotate measured_libm (PyInt 7, PyInt (- 3)) (PyInt 0) = Inr (7, - 3)"
    using t measured_0 by simp
  have r3: "rotate measured_libm (PyFloat (Fin (- 4)), PyFloat (Fin (5 / 2))) (PyInt 0) = Inr (- 4, 2)"
    using t measured_0 h2 h4 by simp
  have r4: "rotate measured_libm (PyInt 10, PyInt 0) (PyInt 90) = Inr (0, 10)"
    using t measured_90 by simp
  have g: "rotate measured_libm (PyInt 10, PyInt 0) (PyInt 180)
             = Inr (toward_zero (- 10), toward_zero (6209697000026889 / 2 ^ 102))"
    using t radians_180 measured_180 h1 rotate_10_180_measured by simp
  show ?thesis
    using radians_180 measured_0 measured_90 measured_180 h1 h2 h3 rotate_10_180_measured
      g r1 r2 r3 r4 by simp
qed

theorem rotate_counterexample:
  "robot_polyline (1 / 2) ! 0 = (- 4, 5 / 2)
   \<and> rotate measured_libm (PyFloat (Fin (- 4)), PyFloat (Fin (5 / 2))) (PyInt 0) = Inr (- 4, 2)
   \<and> rotate measured_libm (PyInt 8, PyInt 0) (PyInt 30) = Inr (6, 3)
   \<and> toward_zero (8 * sin (radians 30)) = 4"
proof -
  have "robot_polyline (1 / 2) ! 0 = (- 4, 5 / 2)"
    by (simp add: robot_polyline_def Let_def ROBOT_HEIGHT_def ROBOT_WIDTH_def)
  then show ?thesis
    using rotate_fraction rotate_8_30 sin_radians_30 by simp
qed

subsection \<open>The robot icon\<close>

text \<open>
  C1. For scale 1 the polyline has three points, but they are \<open>(-8, 5)\<close>, \<open>(8, 0)\<close>
  and \<open>(-8, -8)\<close>: the top vertex is computed from \<open>ROBOT_HEIGHT\<close>, not from
  \<open>ROBOT_WIDTH\<close>. The mirror image \<open>(-8, -5)\<close> of the bottom vertex is not a vertex,
  so the triangle is not symmetric about the x-axis, and its y-extent is 13, not
  \<open>ROBOT_WIDTH = 10\<close>; its x-extent is \<open>ROBOT_HEIGHT = 16\<close>.
\<close>

theorem robot_polyline_scale_1:
  "robot_polyline 1 = [(-8, 5), (8, 0), (-8, -8)]
   \<and> (-8, -5) \<notin> set (robot_polyline 1)
   \<and> Max (snd ` set (robot_polyline 1)) - Min (snd ` set (robot_polyline 1)) = 13
   \<and> real_of_int ROBOT_WIDTH = 10
   \<and> Max (fst ` set (robot_polyline 1)) - Min (fst ` set (robot_polyline 1)) = real_of_int ROBOT_HEIGHT"
  by (simp add: robot_polyline_def ROBOT_HEIGHT_def ROBOT_WIDTH_def)

subsection \<open>The initial pose\<close>

text \<open>
  C6. The constructor places the pose arrow at the fixed point \<open>(16000, 16000)\<close>,
  heading along the x-axis (zero orientation), whatever the map is. For a map of 500
  pixels at 10 mm per pixel the centre of the extent is \<open>(2500, 2500)\<close>; the arrow is
  not there.
\<close>

theorem init_vehicle_not_centered:
  "arrow_x (vehicle (SlamShow_init 500 10 ''SLAM'' 1)) = 16000
   \<and> arrow_y (vehicle (SlamShow_init 500 10 ''SLAM'' 1)) = 16000
   \<and> map_scale_mm_per_pixel (SlamShow_init 500 10 ''SLAM'' 1)
       * of_int (map_size_pixels (SlamShow_init 500 10 ''SLAM'' 1)) / 2 = 2500
   \<and> arrow_dx (vehicle (SlamShow_init 500 10 ''SLAM'' 1)) = 1 / 10
   \<and> arrow_dy (vehicle (SlamShow_init 500 10 ''SLAM'' 1)) = 0"
  by (simp add: vehicle_init)

subsection \<open>The map\<close>

lemma length_store_slice [simp]: "length (store_slice cur step vs b) = length b"
  by (induction vs arbitrary: cur b) simp_all

text \<open>A place the slice does not visit keeps its byte.\<close>

lemma store_slice_miss:
  "(\<And>i. i < length vs \<Longrightarrow> j \<noteq> cur + i * step) \<Longrightarrow> store_slice cur step vs b ! j = b ! j"
proof (induction vs arbitrary: cur b)
  case Nil
  show ?case by simp
next
  case (Cons v vs)
  have "j \<noteq> cur" using Cons.prems [of 0] by simp
  moreover have "j \<noteq> (cur + step) + i * step" if "i < length vs" for i
    using Cons.prems [of "Suc i"] that by (simp add: add.assoc)
  ultimately show ?case
    using Cons.IH [of "cur + step" "b[cur := v]"] by simp
qed

text \<open>The place number \<open>i\<close> of the slice receives the value number \<open>i\<close>.\<close>

lemma store_slice_hit:
  "0 < step \<Longrightarrow> i < length vs \<Longrightarrow> cur + i * step < length b \<Longrightarrow>
   store_slice cur step vs b ! (cur + i * step) = vs ! i"
proof (induction vs arbitrary: cur b i)
  case Nil
  then show ?case by simp
next
  case (Cons v vs)
  show ?case
  proof (cases i)
    case 0
    have "store_slice (cur + step) step vs (b[cur := v]) ! cur = (b[cur := v]) ! cur"
      using Cons.prems(1) by (intro store_slice_miss) simp
    with 0 Cons.prems show ?thesis by simp
  next
    case (Suc i')
    have "store_slice (cur + step) step vs (b[cur := v]) ! ((cur + step) + i' * step) = vs ! i'"
      using Cons.prems Suc by (intro Cons.IH) (simp_all add: add.assoc)
    with Suc show ?thesis by (simp add: add.assoc)
  qed
qed

lemma concat_triple_nth:
  "j < 3 * length m \<Longrightarrow> concat (map (\<lambda>v. [v, v, v]) m) ! j = m ! (j div 3)"
proof (induction m arbitrary: j)
  case Nil
  then show ?case by simp
next
  case (Cons a m)
  have unfold: "concat (map (\<lambda>v. [v, v, v]) (a # m)) = [a, a, a] @ concat (map (\<lambda>v. [v, v, v]) m)"
    by simp
  show ?case
  proof (cases "j < 3")
    case True
    then have d: "j div 3 = 0" by simp
    from True have "j = 0 \<or> j = Suc 0 \<or> j = Suc (Suc 0)" by arith
    then have "([a, a, a] @ concat (map (\<lambda>v. [v, v, v]) m)) ! j = a"
      by (elim disjE) simp_all
    with d show ?thesis by (simp only: unfold nth_Cons_0)
  next
    case False
    define j' where "j' = j - 3"
    have j: "j = j' + 3" using False by (simp add: j'_def)
    have "j' < 3 * length m" using Cons.prems j by simp
    then have IH: "concat (map (\<lambda>v. [v, v, v]) m) ! j' = m ! (j' div 3)"
      by (rule Cons.IH)
    have l: "length [a, a, a] + j' = j"
      unfolding j by simp
    have "([a, a, a] @ concat (map (\<lambda>v. [v, v, v]) m)) ! (length [a, a, a] + j')
          = concat (map (\<lambda>v. [v, v, v]) m) ! j'"
      by (rule nth_append_length_plus)
    then have "([a, a, a] @ concat (map (\<lambda>v. [v, v, v]) m)) ! j = concat (map (\<lambda>v. [v, v, v]) m) ! j'"
      by (simp only: l)
    moreover have "j div 3 = Suc (j' div 3)" unfolding j by simp
    ultimately show ?thesis using IH by (simp only: unfold nth_Cons_Suc)
  qed
qed

lemma length_concat_triple: "length (concat (map (\<lambda>v. [v, v, v]) m)) = 3 * length m"
  by (induction m) simp_all

lemma slicelength_3: "0 < n \<Longrightarrow> c < 3 \<Longrightarrow> slicelength c 3 (3 * n) = n"
  by (auto simp: slicelength_def)

text \<open>The three slice assignments together interleave the map bytes.\<close>

lemma interleave:
  assumes "length b = 3 * length m"
  shows "store_slice 2 3 m (store_slice 1 3 m (store_slice 0 3 m b)) = concat (map (\<lambda>v. [v, v, v]) m)"
proof (rule nth_equalityI)
  show "length (store_slice 2 3 m (store_slice 1 3 m (store_slice 0 3 m b)))
        = length (concat (map (\<lambda>v. [v, v, v]) m))"
    using assms by (simp add: length_concat_triple)
next
  fix j assume "j < length (store_slice 2 3 m (store_slice 1 3 m (store_slice 0 3 m b)))"
  then have j: "j < 3 * length m" using assms by simp
  define k where "k = j div 3"
  have k: "k < length m" using j by (simp add: k_def less_mult_imp_div_less mult.commute)
  have "j mod 3 = 0 \<or> j mod 3 = 1 \<or> j mod 3 = 2" by arith
  then consider "j = 0 + k * 3" | "j = 1 + k * 3" | "j = 2 + k * 3"
    unfolding k_def by (metis add.commute mod_div_mult_eq)
  then have "store_slice 2 3 m (store_slice 1 3 m (store_slice 0 3 m b)) ! j = m ! k"
  proof cases
    case 1
    have "store_slice 2 3 m (store_slice 1 3 m (store_slice 0 3 m b)) ! j
          = store_slice 1 3 m (store_slice 0 3 m b) ! j"
      using 1 by (intro store_slice_miss) arith
    also have "\<dots> = store_slice 0 3 m b ! j"
      using 1 by (intro store_slice_miss) arith
    also have "\<dots> = m ! k"
      unfolding 1 using k j 1 assms by (intro store_slice_hit) simp_all
    finally show ?thesis .
  next
    case 2
    have "store_slice 2 3 m (store_slice 1 3 m (store_slice 0 3 m b)) ! j
          = store_slice 1 3 m (store_slice 0 3 m b) ! j"
      using 2 by (intro store_slice_miss) arith
    also have "\<dots> = m ! k"
      unfolding 2 using k j 2 assms by (intro store_slice_hit) simp_all
    finally show ?thesis .
  next
    case 3
    show ?thesis
      unfolding 3 using k j 3 assms by (intro store_slice_hit) simp_all
  qed
  then show "store_slice 2 3 m (store_slice 1 3 m (store_slice 0 3 m b)) ! j
             = concat (map (\<lambda>v. [v, v, v]) m) ! j"
    using j by (simp add: concat_triple_nth k_def)
qed

lemma delete_slice_Nil [simp]: "delete_slice start step [] = []"
  by (simp add: delete_slice_def)

lemma displayMap_ok:
  assumes "length (bgrbytes self) = 3 * length mapbytes"
  shows "displayMap self mapbytes =
     (Inr (), emit [CvSetData (map_size_pixels self * 3)]
                (self\<lparr>bgrbytes := concat (map (\<lambda>v. [v, v, v]) mapbytes)\<rparr>))"
proof (cases "mapbytes = []")
  case True
  with assms show ?thesis by (simp add: displayMap_def ass_slice_def)
next
  case False
  then have n: "0 < length mapbytes" by simp
  show ?thesis
    using assms False interleave [OF assms]
    by (simp add: displayMap_def ass_slice_def slicelength_3 [OF n])
qed


text \<open>The buffer of an object holds three bytes per pixel of the map.\<close>

lemma buffer_length_init:
  "length (bgrbytes (SlamShow_init n sc w f)) = nat (n * n * 3)"
  by simp

lemma buffer_length:
  assumes "length b = nat (n * n * 3)"
  shows "length b = 3 * nat (n * n)"
proof -
  have "0 \<le> n * n" by simp
  then have "nat (n * n * 3) = nat (n * n) * 3"
    by (simp add: nat_mult_distrib)
  with assms show ?thesis by simp
qed

text \<open>
  C3. When the map buffer has \<open>size\<^sup>2\<close> bytes (and the colour buffer its
  \<open>3 \<times> size\<^sup>2\<close> bytes, as the constructor makes it), \<open>displayMap\<close> succeeds and
  leaves a colour buffer of \<open>3 \<times> size\<^sup>2\<close> bytes in which the bytes \<open>3k\<close>,
  \<open>3k + 1\<close> and \<open>3k + 2\<close> all equal byte \<open>k\<close> of the map. The new buffer is the
  interleaving of the map bytes alone: nothing of the earlier contents remains.
\<close>

theorem displayMap_interleaves:
  assumes "int (length mapbytes) = map_size_pixels self * map_size_pixels self"
    and "length (bgrbytes self) = nat (map_size_pixels self * map_size_pixels self * 3)"
  shows "\<exists>self'. displayMap self mapbytes = (Inr (), self')
           \<and> length (bgrbytes self') = 3 * length mapbytes
           \<and> (\<forall>k < length mapbytes.
                 bgrbytes self' ! (3 * k) = mapbytes ! k
               \<and> bgrbytes self' ! (3 * k + 1) = mapbytes ! k
               \<and> bgrbytes self' ! (3 * k + 2) = mapbytes ! k)
           \<and> bgrbytes self' = concat (map (\<lambda>v. [v, v, v]) mapbytes)"
proof -
  let ?new = "concat (map (\<lambda>v. [v, v, v]) mapbytes)"
  have "nat (map_size_pixels self * map_size_pixels self) = length mapbytes"
    using assms(1) by (metis nat_int)
  with buffer_length [OF assms(2)] have len: "length (bgrbytes self) = 3 * length mapbytes"
    by simp
  have nth: "?new ! (3 * k) = mapbytes ! k \<and> ?new ! (3 * k + 1) = mapbytes ! k
           \<and> ?new ! (3 * k + 2) = mapbytes ! k" if "k < length mapbytes" for k
  proof -
    have "3 * k < 3 * length mapbytes" "3 * k + 1 < 3 * length mapbytes"
         "3 * k + 2 < 3 * length mapbytes"
      using that by simp_all
    moreover have "(3 * k) div 3 = k" "(3 * k + 1) div 3 = k" "(3 * k + 2) div 3 = k"
      by simp_all
    ultimately show ?thesis
      by (simp only: concat_triple_nth)
  qed
  show ?thesis
    using displayMap_ok [OF len] nth by (simp add: length_concat_triple)
qed

text \<open>The map of size 2 with bytes 10, 20, 30, 40.\<close>

theorem displayMap_interleaves_witness:
  "int (length [10, 20, 30, 40 :: byte])
     = map_size_pixels (SlamShow_init 2 10 ''SLAM'' 1) * map_size_pixels (SlamShow_init 2 10 ''SLAM'' 1)
   \<and> length (bgrbytes (SlamShow_init 2 10 ''SLAM'' 1))
     = nat (map_size_pixels (SlamShow_init 2 10 ''SLAM'' 1) * map_size_pixels (SlamShow_init 2 10 ''SLAM'' 1) * 3)
   \<and> fst (displayMap (SlamShow_init 2 10 ''SLAM'' 1) [10, 20, 30, 40]) = Inr ()
   \<and> bgrbytes (snd (displayMap (SlamShow_init 2 10 ''SLAM'' 1) [10, 20, 30, 40]))
     = [10, 10, 10, 20, 20, 20, 30, 30, 30, 40, 40, 40]"
proof -
  have h1: "int (length [10, 20, 30, 40 :: byte])
     = map_size_pixels (SlamShow_init 2 10 ''SLAM'' 1) * map_size_pixels (SlamShow_init 2 10 ''SLAM'' 1)"
    by simp
  have h2: "length (bgrbytes (SlamShow_init 2 10 ''SLAM'' 1))
     = nat (map_size_pixels (SlamShow_init 2 10 ''SLAM'' 1) * map_size_pixels (SlamShow_init 2 10 ''SLAM'' 1) * 3)"
    by simp
  from displayMap_interleaves [OF h1 h2] obtain self' where
    "displayMap (SlamShow_init 2 10 ''SLAM'' 1) [10, 20, 30, 40] = (Inr (), self')"
    "bgrbytes self' = concat (map (\<lambda>v. [v, v, v]) [10, 20, 30, 40])"
    by blast
  then show ?thesis
    using h1 h2 by simp
qed











subsection \<open>The display loop\<close>

text \<open>What one call of \<open>refresh\<close> returns and which external calls it makes.\<close>

lemma refresh_eq:
  "refresh self env =
     (Inr (figid self = gcf_id env \<and> \<not> isl (pause_result env) \<and> key env \<noteq> 27),
      emit (if figid self \<noteq> gcf_id env then [PltGcf]
            else if isl (pause_result env) then [PltGcf, PltDraw, PltPause]
            else [PltGcf, PltDraw, PltPause, CvShowImage (window_name self), CvWaitKey]) self)"
  by (auto simp: refresh_def cvdisplay_def emit_def Let_def split: sum.splits)

text \<open>
  C2. \<open>refresh\<close> keeps no state of the loop: the object has no RUNNING or STOPPED
  field and \<open>refresh\<close> assigns none. In any sequence of calls on one object, each
  call returns false exactly when, at that call, the current figure is not the one
  captured at construction, or the pause raises, or the key polled is 27, and true
  otherwise, whatever the earlier calls returned. A call that gets past the figure
  check and the pause redraws, pauses, shows the image and polls the key, whatever
  came before; the calls change nothing of the object but the record of the external
  calls made.
\<close>

theorem refresh_stateless:
  "refresh self env =
     (Inr (figid self = gcf_id env \<and> \<not> isl (pause_result env) \<and> key env \<noteq> 27),
      emit (if figid self \<noteq> gcf_id env then [PltGcf]
            else if isl (pause_result env) then [PltGcf, PltDraw, PltPause]
            else [PltGcf, PltDraw, PltPause, CvShowImage (window_name self), CvWaitKey]) self)
   \<and> (\<exists>cs. refresh_run self envs =
         (Inr (map (\<lambda>env. figid self = gcf_id env \<and> \<not> isl (pause_result env) \<and> key env \<noteq> 27) envs),
          emit cs self))"
proof (intro conjI)
  show "refresh self env =
     (Inr (figid self = gcf_id env \<and> \<not> isl (pause_result env) \<and> key env \<noteq> 27),
      emit (if figid self \<noteq> gcf_id env then [PltGcf]
            else if isl (pause_result env) then [PltGcf, PltDraw, PltPause]
            else [PltGcf, PltDraw, PltPause, CvShowImage (window_name self), CvWaitKey]) self)"
    by (rule refresh_eq)
next
  show "\<exists>cs. refresh_run self envs =
         (Inr (map (\<lambda>env. figid self = gcf_id env \<and> \<not> isl (pause_result env) \<and> key env \<noteq> 27) envs),
          emit cs self)"
  proof (induction envs arbitrary: self)
    case Nil
    show ?case
      by (intro exI [of _ "[]"]) simp
  next
    case (Cons env envs)
    obtain ds where r: "refresh self env =
        (Inr (figid self = gcf_id env \<and> \<not> isl (pause_result env) \<and> key env \<noteq> 27), emit ds self)"
      using refresh_eq by blast
    obtain cs where rr: "refresh_run (emit ds self) envs =
        (Inr (map (\<lambda>env. figid self = gcf_id env \<and> \<not> isl (pause_result env) \<and> key env \<noteq> 27) envs),
         emit cs (emit ds self))"
      using Cons.IH [of "emit ds self"] by auto
    have "refresh_run self (env # envs) =
        (Inr (map (\<lambda>env. figid self = gcf_id env \<and> \<not> isl (pause_result env) \<and> key env \<noteq> 27)
               (env # envs)),
         emit (ds @ cs) self)"
      using r rr by (simp add: emit_emit)
    then show ?case by blast
  qed
qed

text \<open>
  A call that polls ESC returns false; the next call on the same object, with the
  figure still current, the pause completing and no key pressed, returns true, and
  redraws, pauses, shows the image and polls the key again.
\<close>

theorem refresh_after_esc_counterexample:
  "fst (refresh_run (SlamShow_init 2 10 ''SLAM'' 7)
          [\<lparr>gcf_id = 7, pause_result = Inr (), key = 27\<rparr>,
           \<lparr>gcf_id = 7, pause_result = Inr (), key = - 1\<rparr>]) = Inr [False, True]
   \<and> snd (refresh (snd (refresh (SlamShow_init 2 10 ''SLAM'' 7)
                           \<lparr>gcf_id = 7, pause_result = Inr (), key = 27\<rparr>))
                 \<lparr>gcf_id = 7, pause_result = Inr (), key = - 1\<rparr>)
     = emit [PltGcf, PltDraw, PltPause, CvShowImage ''SLAM'', CvWaitKey]
         (snd (refresh (SlamShow_init 2 10 ''SLAM'' 7)
                 \<lparr>gcf_id = 7, pause_result = Inr (), key = 27\<rparr>))"
  by (simp add: refresh_eq)

text \<open>
  C9. \<open>refresh\<close> returns a boolean for every answer of its surroundings: it never
  raises. When the current figure is not the one captured at construction, and when
  the pause raises, whatever the exception, it returns false.
\<close>

theorem refresh_never_raises:
  "(\<exists>b. fst (refresh self env) = Inr b)
   \<and> (figid self \<noteq> gcf_id env \<longrightarrow> fst (refresh self env) = Inr False)
   \<and> (pause_result env = Inl e \<longrightarrow> fst (refresh self env) = Inr False)"
  by (simp add: refresh_eq)

theorem refresh_never_raises_witness:
  "figid (SlamShow_init 2 10 ''SLAM'' 7) \<noteq> gcf_id \<lparr>gcf_id = 8, pause_result = Inr (), key = - 1\<rparr>
   \<and> fst (refresh (SlamShow_init 2 10 ''SLAM'' 7) \<lparr>gcf_id = 8, pause_result = Inr (), key = - 1\<rparr>)
       = Inr False
   \<and> pause_result \<lparr>gcf_id = 7, pause_result = Inl KeyboardInterrupt, key = - 1\<rparr> = Inl KeyboardInterrupt
   \<and> fst (refresh (SlamShow_init 2 10 ''SLAM'' 7)
            \<lparr>gcf_id = 7, pause_result = Inl KeyboardInterrupt, key = - 1\<rparr>) = Inr False"
proof -
  have h1: "figid (SlamShow_init 2 10 ''SLAM'' 7) \<noteq> gcf_id \<lparr>gcf_id = 8, pause_result = Inr (), key = - 1\<rparr>"
    by simp
  have h2: "pause_result \<lparr>gcf_id = 7, pause_result = Inl KeyboardInterrupt, key = - 1\<rparr> = Inl KeyboardInterrupt"
    by simp
  show ?thesis
    using h1 h2
      refresh_never_raises [of "SlamShow_init 2 10 ''SLAM'' 7"
        "\<lparr>gcf_id = 8, pause_result = Inr (), key = - 1\<rparr>" KeyboardInterrupt]
      refresh_never_raises [of "SlamShow_init 2 10 ''SLAM'' 7"
        "\<lparr>gcf_id = 7, pause_result = Inl KeyboardInterrupt, key = - 1\<rparr>" KeyboardInterrupt]
    by simp
qed

end
